theory Spec2Isabelle
  imports Main "HOL-Library.Word" "HOL-Library.Signed_Division"
begin

section \<open>The fake status store (statusstoretest/fake_status_store.go)\<close>

text \<open>
  The types of package statusstore are declared outside the files at hand. Their use in
  the fake fixes what is needed of them: \<open>ResourceType\<close>, \<open>ResourceID\<close> and
  \<open>Namespace\<close> are printed with \<open>%s\<close>, so they are strings; \<open>Status\<close> is built
  with the empty composite literal \<open>Status{}\<close>.
\<close>

type_synonym ResourceType = string
type_synonym ResourceID = string
type_synonym Namespace = string

text \<open>
  Modelled from the spec: the declaration of \<open>statusstore.Status\<close> is missing; the data
  model calls it an opaque byte payload, so it is a list of bytes and \<open>Status{}\<close> is the
  empty list.
\<close>

type_synonym Status = "8 word list"

definition Status_zero :: Status where
  "Status_zero = []"

record StatusIdentifier =
  resourceType :: ResourceType
  resourceID :: ResourceID
  namespace :: Namespace

text \<open>\<open>fmt.Sprintf("status/%s/%s/%s", ...)\<close>\<close>

definition String :: "StatusIdentifier \<Rightarrow> string" where
  "String s = ''status/'' @ resourceType s @ ''/'' @ resourceID s @ ''/'' @ namespace s"

text \<open>
  The errors the fake returns: the typed \<open>statusstore.NoStatusError{Key: ...}\<close> and the
  plain text errors of \<open>errors.New\<close> and \<open>util.Errorf\<close>.
\<close>

datatype store_error = NoStatusError (Key: string) | ErrorText string

text \<open>Of \<open>api.QueryMeta\<close> the fake sets \<open>LastIndex\<close> only.\<close>

record QueryMeta =
  qm_LastIndex :: "64 word"

text \<open>
  The store: the map of statuses and the \<open>uint64\<close> counter. The mutex \<open>mu\<close> has no
  field here: every operation below is one critical section, a function from the store
  at the moment the lock is taken to the store at the moment it is released.
\<close>

record FakeStatusStore =
  Statuses :: "StatusIdentifier \<rightharpoonup> Status"
  LastIndex :: "64 word"

definition NewFake :: FakeStatusStore where
  "NewFake = \<lparr>Statuses = Map.empty, LastIndex = 1234\<rparr>"

definition SetStatus ::
  "FakeStatusStore \<Rightarrow> ResourceType \<Rightarrow> ResourceID \<Rightarrow> Namespace \<Rightarrow> Status
    \<Rightarrow> store_error option \<times> FakeStatusStore" where
  "SetStatus s t ident ns status =
     (let identifier = \<lparr>resourceType = t, resourceID = ident, namespace = ns\<rparr>;
          s1 = s\<lparr>Statuses := (Statuses s)(identifier \<mapsto> status)\<rparr>;
          s2 = s1\<lparr>LastIndex := LastIndex s1 + 1\<rparr>
      in (None, s2))"

text \<open>The context argument of the three transactional operations is unused and left out.\<close>

definition CASStatus ::
  "FakeStatusStore \<Rightarrow> ResourceType \<Rightarrow> ResourceID \<Rightarrow> Namespace \<Rightarrow> Status \<Rightarrow> 64 word
    \<Rightarrow> store_error option \<times> FakeStatusStore" where
  "CASStatus s t ident ns status modifyIndex =
     (Some (ErrorText ''CASStatus uses transactions which requires a real consul instance''), s)"

definition SetTxn ::
  "FakeStatusStore \<Rightarrow> ResourceType \<Rightarrow> ResourceID \<Rightarrow> Namespace \<Rightarrow> Status
    \<Rightarrow> store_error option \<times> FakeStatusStore" where
  "SetTxn s t ident ns status =
     (Some (ErrorText ''SetTxn uses transactions which requires a real consul instance''), s)"

text \<open>\<open>GetStatus\<close> reads under the lock and changes nothing, so it returns no store.\<close>

definition GetStatus ::
  "FakeStatusStore \<Rightarrow> ResourceType \<Rightarrow> ResourceID \<Rightarrow> Namespace
    \<Rightarrow> Status \<times> QueryMeta \<times> store_error option" where
  "GetStatus s t ident ns =
     (let identifier = \<lparr>resourceType = t, resourceID = ident, namespace = ns\<rparr>
      in case Statuses s identifier of
           None \<Rightarrow>
             (Status_zero, \<lparr>qm_LastIndex = LastIndex s\<rparr>,
              Some (NoStatusError (String identifier)))
         | Some status \<Rightarrow> (status, \<lparr>qm_LastIndex = LastIndex s\<rparr>, None))"

text \<open>
  \<open>WatchStatus\<close> polls: it takes the lock, compares, releases the lock, and either calls
  \<open>GetStatus\<close> (which takes the lock again) or sleeps a millisecond and starts over.
  Other goroutines may change the store whenever the lock is free, so the model reads the
  store through \<open>obs\<close>: \<open>obs i\<close> is the store at the \<open>i\<close>-th time this call holds the lock.
  The loop has no exit of its own; \<open>fuel\<close> bounds the number of rounds looked at, and
  \<open>None\<close> is a call that is still polling after that many rounds.
\<close>

fun WatchStatus ::
  "(nat \<Rightarrow> FakeStatusStore) \<Rightarrow> nat \<Rightarrow> nat \<Rightarrow> ResourceType \<Rightarrow> ResourceID \<Rightarrow> Namespace \<Rightarrow> 64 word
    \<Rightarrow> (Status \<times> QueryMeta \<times> store_error option) option" where
  "WatchStatus obs 0 i t ident ns waitIndex = None"
| "WatchStatus obs (Suc fuel) i t ident ns waitIndex =
     (if waitIndex \<le> LastIndex (obs i)
      then Some (GetStatus (obs (Suc i)) t ident ns)
      else WatchStatus obs fuel (Suc i) t ident ns waitIndex)"

text \<open>A store that no other goroutine touches while the call runs.\<close>

definition quiescent :: "FakeStatusStore \<Rightarrow> nat \<Rightarrow> FakeStatusStore" where
  "quiescent s i = s"

definition DeleteStatus ::
  "FakeStatusStore \<Rightarrow> ResourceType \<Rightarrow> ResourceID \<Rightarrow> Namespace
    \<Rightarrow> store_error option \<times> FakeStatusStore" where
  "DeleteStatus s t ident ns =
     (let identifier = \<lparr>resourceType = t, resourceID = ident, namespace = ns\<rparr>;
          s1 = s\<lparr>Statuses := (Statuses s)(identifier := None)\<rparr>;
          s2 = s1\<lparr>LastIndex := LastIndex s1 + 1\<rparr>
      in (None, s2))"

definition DeleteStatusTxn ::
  "FakeStatusStore \<Rightarrow> ResourceType \<Rightarrow> ResourceID \<Rightarrow> Namespace
    \<Rightarrow> store_error option \<times> FakeStatusStore" where
  "DeleteStatusTxn s t ident ns =
     (Some (ErrorText
        ''DeleteStatusTxn() is not implemented on FakeStatusStore. Use a real consul-backed status store if you need this''),
      s)"

text \<open>
  The store is \<open>s\<close> at the first \<open>n\<close> lock acquisitions of the call and \<open>s'\<close> from
  then on: one write by another goroutine.
\<close>

definition changes_at :: "FakeStatusStore \<Rightarrow> nat \<Rightarrow> FakeStatusStore \<Rightarrow> nat \<Rightarrow> FakeStatusStore" where
  "changes_at s n s' i = (if i < n then s else s')"

section \<open>The node health monitor (pkg/watch/health.go)\<close>

subsection \<open>Durations and times\<close>

text \<open>
  \<open>time.Duration\<close> is an \<open>int64\<close> count of nanoseconds. It is an \<open>int\<close> here, and
  \<open>wrap64\<close> is written wherever a run-time operation of the source can leave the range:
  Go's signed arithmetic wraps around silently. \<open>/\<close> on integers truncates towards
  zero, which is \<open>sdiv\<close>.
\<close>

type_synonym Duration = int

definition wrap64 :: "int \<Rightarrow> int" where
  "wrap64 x = (x + 2 ^ 63) mod 2 ^ 64 - 2 ^ 63"

definition minDuration :: Duration where
  "minDuration = - (2 ^ 63)"

definition maxDuration :: Duration where
  "maxDuration = 2 ^ 63 - 1"

definition Second :: Duration where
  "Second = 1000000000"

definition POLL_KV_FOR_PODS :: Duration where
  "POLL_KV_FOR_PODS = 3 * Second"

definition HEALTHCHECK_INTERVAL :: Duration where
  "HEALTHCHECK_INTERVAL = 1 * Second"

definition TTL :: Duration where
  "TTL = 60 * Second"

text \<open>
  A \<open>time.Time\<close> is the number of nanoseconds since the zero \<open>Time\<close>, so the zero value of
  the field \<open>lastCheck\<close> is \<open>0\<close>. \<open>Time.Sub\<close> of the standard library saturates at the
  smallest and largest \<open>Duration\<close>; \<open>time.Since(t)\<close> is \<open>time.Now().Sub(t)\<close>, with
  the clock reading passed in.
\<close>

type_synonym Time = int

definition Sub :: "Time \<Rightarrow> Time \<Rightarrow> Duration" where
  "Sub t u =
     (let d = t - u
      in if d < minDuration then minDuration else if maxDuration < d then maxDuration else d)"

definition Since :: "Time \<Rightarrow> Time \<Rightarrow> Duration" where
  "Since now t = Sub now t"

subsection \<open>Data\<close>

text \<open>
  Modelled from the spec: package health is not among the files. \<open>string(res.Status)\<close>
  in \<open>resToKPRes\<close> shows that \<open>health.HealthState\<close> is a string type, whose zero value
  is the empty string; the health record payload of the spec gives the texts of the two
  states this file uses.
\<close>

type_synonym HealthState = string

definition Passing :: HealthState where
  "Passing = ''passing''"

definition Critical :: HealthState where
  "Critical = ''critical''"

text \<open>An \<open>error\<close> value is known by the text its \<open>Error()\<close> method returns.\<close>

datatype error = errorString (Error: string)

text \<open>\<open>health.Result\<close>, with the fields this file reads and writes.\<close>

record Result =
  res_ID :: string
  res_Node :: string
  res_Service :: string
  res_Status :: HealthState
  res_Output :: string

definition Result_zero :: Result where
  "Result_zero =
     \<lparr>res_ID = [], res_Node = [], res_Service = [], res_Status = [], res_Output = []\<rparr>"

text \<open>\<open>kp.WatchResult\<close>, the health record handed to the KV store.\<close>

record WatchResult =
  kp_Service :: string
  kp_Node :: string
  kp_Id :: string
  kp_Status :: string
  kp_Output :: string

text \<open>
  Of an \<open>http.Response\<close> the file reads the status code and the body. \<open>Body\<close> is what
  \<open>ioutil.ReadAll\<close> delivers: the bytes read, and the error that ended the read if one
  did.
\<close>

record Response =
  StatusCode :: int
  Body :: "string \<times> error option"

text \<open>Of \<open>pods.Manifest\<close> the file reads three fields.\<close>

record Manifest =
  Manifest_Id :: string
  StatusPort :: int
  StatusHTTP :: bool

text \<open>\<open>kp.ManifestResult\<close>: the listing pairs each manifest with data that is not read.\<close>

record ManifestResult =
  mr_Manifest :: Manifest

text \<open>Channels, loggers and HTTP clients are references; a number names each.\<close>

type_synonym chan = nat
type_synonym Logger = nat
type_synonym http_Client = nat

record PodWatch =
  manifest :: Manifest
  shutdownCh :: chan
  logger :: Logger

record StatusCheck =
  ID :: string
  Node :: string
  URI :: string
  HTTP :: bool
  Client :: http_Client
  lastCheck :: Time
  lastStatus :: HealthState

subsection \<open>What lies outside the package\<close>

text \<open>
  The KV store, the two HTTP probes of package kp and the clock answer differently from
  one moment to the next. An \<open>env\<close> holds their answers at one moment: \<open>ListPods\<close>
  gives the listing and the error (the index between them is dropped by the caller),
  \<open>PutHealth\<close> the time of the put and the error (the duration between them is
  dropped), the probes a response, possibly \<open>nil\<close>, and an error.
\<close>

record env =
  ListPods :: "string \<Rightarrow> ManifestResult list \<times> error option"
  PutHealth :: "WatchResult \<Rightarrow> Time \<times> error option"
  HttpsStatusCheck :: "http_Client \<Rightarrow> string \<Rightarrow> Response option \<times> error option"
  HttpStatusCheck :: "http_Client \<Rightarrow> string \<Rightarrow> Response option \<times> error option"
  Now :: Time

text \<open>
  Modelled from the spec: \<open>kp.RealityPath\<close> is not among the files; the keyspace of the
  spec puts a node's reality set under \<open>reality/<node>\<close>.
\<close>

definition RealityPath :: "string \<Rightarrow> string" where
  "RealityPath node = ''reality/'' @ node"

text \<open>\<open>fmt.Sprintf("%s:%d", node, port)\<close>: the port is printed in decimal.\<close>

fun decimal_nat :: "nat \<Rightarrow> string" where
  "decimal_nat n =
     (if n < 10 then [char_of (48 + n)]
      else decimal_nat (n div 10) @ [char_of (48 + n mod 10)])"

declare decimal_nat.simps [simp del]

definition decimal :: "int \<Rightarrow> string" where
  "decimal i = (if i < 0 then CHR ''-'' # decimal_nat (nat (- i)) else decimal_nat (nat i))"

definition Sprintf_s_d :: "string \<Rightarrow> int \<Rightarrow> string" where
  "Sprintf_s_d node port = node @ '':'' @ decimal port"

subsection \<open>One health check\<close>

definition Check :: "env \<Rightarrow> StatusCheck \<Rightarrow> Response option \<times> error option" where
  "Check e sc =
     (if HTTP sc then HttpsStatusCheck e (Client sc) (URI sc)
      else HttpStatusCheck e (Client sc) (URI sc))"

definition getBody :: "Response \<Rightarrow> string \<times> error option" where
  "getBody resp =
     (case Body resp of
        (body, Some err) \<Rightarrow> ([], Some err)
      | (body, None) \<Rightarrow> (body, None))"

text \<open>
  The three equations are the two branches of the source: \<open>err != nil || resp == nil\<close>
  is the first two, a response without an error the third.
\<close>

fun resultFromCheck :: "Response option \<Rightarrow> error option \<Rightarrow> Result \<times> error option" where
  "resultFromCheck resp (Some err) =
     (Result_zero\<lparr>res_Status := Critical, res_Output := Error err\<rparr>, None)"
| "resultFromCheck None None =
     (Result_zero\<lparr>res_Status := Critical\<rparr>, None)"
| "resultFromCheck (Some resp) None =
     (case getBody resp of
        (out, err) \<Rightarrow>
          (if 200 \<le> StatusCode resp \<and> StatusCode resp < 300
           then (Result_zero\<lparr>res_Output := out, res_Status := Passing\<rparr>, err)
           else (Result_zero\<lparr>res_Output := out, res_Status := Critical\<rparr>, err)))"

definition resToKPRes :: "Result \<Rightarrow> WatchResult" where
  "resToKPRes res =
     \<lparr>kp_Service = res_Service res, kp_Node = res_Node res, kp_Id = res_ID res,
      kp_Status = res_Status res, kp_Output = res_Output res\<rparr>"

text \<open>
  The KV store keeps what it is handed. \<open>store_PutHealth\<close> is the call
  \<open>store.PutHealth(r)\<close>: its answer is the environment's, and the record \<open>r\<close> it was
  given is added to \<open>kv\<close>, the records handed to the store so far, oldest first.
\<close>

type_synonym kv_log = "WatchResult list"

definition store_PutHealth ::
  "env \<Rightarrow> kv_log \<Rightarrow> WatchResult \<Rightarrow> (Time \<times> error option) \<times> kv_log" where
  "store_PutHealth e kv r = (PutHealth e r, kv @ [r])"

definition writeToConsul :: "env \<Rightarrow> kv_log \<Rightarrow> Result \<Rightarrow> (Time \<times> error option) \<times> kv_log" where
  "writeToConsul e kv res = store_PutHealth e kv (resToKPRes res)"

text \<open>
  \<open>time.Duration(ttl/4)*time.Second\<close> is computed at run time from the parameter \<open>ttl\<close>,
  in \<open>int64\<close>: the division truncates and the product wraps around.
\<close>

definition updateNeeded :: "StatusCheck \<Rightarrow> Result \<Rightarrow> Duration \<Rightarrow> Time \<Rightarrow> bool" where
  "updateNeeded sc res ttl now =
     (if lastStatus sc \<noteq> res_Status res then True
      else if wrap64 ((ttl sdiv 4) * Second) < Since now (lastCheck sc) then True
      else False)"

text \<open>
  \<open>checkHealth\<close> receives its \<open>StatusCheck\<close> by value and returns nothing. The model
  returns what the call leaves behind: the callee's own copy of \<open>sc\<close> as it is when the
  function ends, the KV store's records after the call, and the warnings logged.
\<close>

definition checkHealth ::
  "env \<Rightarrow> kv_log \<Rightarrow> StatusCheck \<Rightarrow> StatusCheck \<times> kv_log \<times> (string \<times> error) list" where
  "checkHealth e kv sc =
     (case Check e sc of
        (resp, err) \<Rightarrow>
          (case resultFromCheck resp err of
             (health, Some err) \<Rightarrow> (sc, kv, [])
           | (health, None) \<Rightarrow>
               (let health = health\<lparr>res_ID := ID sc, res_Node := Node sc, res_Service := ID sc\<rparr>
                in if updateNeeded sc health TTL (Now e)
                   then (case writeToConsul e kv health of
                           ((timeOfPut, err), kv') \<Rightarrow>
                             (sc\<lparr>lastCheck := timeOfPut, lastStatus := res_Status health\<rparr>,
                              kv',
                              (case err of
                                 None \<Rightarrow> []
                               | Some err \<Rightarrow> [(''failed to write to consul'', err)])))
                   else (sc, kv, []))))"

subsection \<open>Channels and goroutines\<close>

text \<open>
  What the goroutines of the package share and what the supervisor does to the rest of
  the process: the buffer of each channel, the values sent on channels (oldest first),
  the goroutines launched, with the arguments of the \<open>go\<close> statement, the number of
  channels made, and the warnings the supervisor logs.

  The field \<open>shutdownCh\<close> is not exported and \<open>updatePods\<close> is the one place that
  fills it, with \<open>make(chan bool, 1)\<close>: every shutdown channel has a buffer of one
  value. A send completes at once when the buffer is empty. When the buffer is full the
  sender waits until a receiver has taken the value; \<open>None\<close> is a sender stopped at
  that statement. A receive takes the oldest value of the buffer; there is none to take
  when the buffer is empty.
\<close>

record world =
  buffer :: "chan \<Rightarrow> bool list"
  sent :: "(chan \<times> bool) list"
  spawned :: "(PodWatch \<times> StatusCheck \<times> chan) list"
  nextCh :: chan
  logged :: "(string \<times> error) list"

definition make_chan :: "world \<Rightarrow> chan \<times> world" where
  "make_chan w = (nextCh w, w\<lparr>nextCh := Suc (nextCh w), buffer := (buffer w)(nextCh w := [])\<rparr>)"

definition chan_send :: "world \<Rightarrow> chan \<Rightarrow> bool \<Rightarrow> world option" where
  "chan_send w c v =
     (if buffer w c = []
      then Some (w\<lparr>buffer := (buffer w)(c := [v]), sent := sent w @ [(c, v)]\<rparr>)
      else None)"

definition chan_receive :: "world \<Rightarrow> chan \<Rightarrow> (bool \<times> world) option" where
  "chan_receive w c =
     (case buffer w c of
        [] \<Rightarrow> None
      | v # vs \<Rightarrow> Some (v, w\<lparr>buffer := (buffer w)(c := vs)\<rparr>))"

subsection \<open>The loop of one monitor\<close>

text \<open>
  \<open>MonitorHealth\<close> selects between its one-second timer and the channel it was given,
  forever. An \<open>event\<close> is the case the select takes: \<open>Tick\<close>, the timer, with the
  outside world as it is at that moment, or \<open>Receive\<close>, the channel. The channel case
  can be taken only when the channel holds a value; when it holds none the select goes
  on waiting and nothing changes. The state of the goroutine is its variable
  \<open>statusChecker\<close>, the records it has handed to the KV store, its warnings, and
  whether it has returned. Each tick passes \<open>statusChecker\<close> to \<open>checkHealth\<close> by
  value, so the copy that \<open>checkHealth\<close> changed is dropped when the call ends.
\<close>

datatype event = Tick env | Receive

record monitor =
  statusChecker :: StatusCheck
  puts :: kv_log
  warnings :: "(string \<times> error) list"
  returned :: bool

fun MonitorHealth_select :: "chan \<Rightarrow> world \<times> monitor \<Rightarrow> event \<Rightarrow> world \<times> monitor" where
  "MonitorHealth_select ch (w, m) (Tick e) =
     (case checkHealth e (puts m) (statusChecker m) of
        (sc_copy, kv, ws) \<Rightarrow> (w, m\<lparr>puts := kv, warnings := warnings m @ ws\<rparr>))"
| "MonitorHealth_select ch (w, m) Receive =
     (case chan_receive w ch of
        None \<Rightarrow> (w, m)
      | Some (v, w') \<Rightarrow> (w', m\<lparr>returned := True\<rparr>))"

fun MonitorHealth_loop :: "chan \<Rightarrow> world \<times> monitor \<Rightarrow> event list \<Rightarrow> world \<times> monitor" where
  "MonitorHealth_loop ch (w, m) [] = (w, m)"
| "MonitorHealth_loop ch (w, m) (ev # evs) =
     (if returned m then (w, m)
      else MonitorHealth_loop ch (MonitorHealth_select ch (w, m) ev) evs)"

text \<open>\<open>MonitorHealth(store, statusChecker, shutdownCh)\<close>, started in the world \<open>w\<close>.\<close>

definition MonitorHealth :: "StatusCheck \<Rightarrow> chan \<Rightarrow> world \<Rightarrow> event list \<Rightarrow> world \<times> monitor" where
  "MonitorHealth sc ch w evs =
     MonitorHealth_loop ch
       (w, \<lparr>statusChecker = sc, puts = [], warnings = [], returned = False\<rparr>) evs"

subsection \<open>The supervisor\<close>

text \<open>The two inner searches of \<open>updatePods\<close>, each leaving at the first match.\<close>

fun inReality :: "ManifestResult list \<Rightarrow> PodWatch \<Rightarrow> bool" where
  "inReality [] pod = False"
| "inReality (man # rest) pod =
     (if Manifest_Id (mr_Manifest man) = Manifest_Id (manifest pod) then True
      else inReality rest pod)"

fun missing :: "PodWatch list \<Rightarrow> ManifestResult \<Rightarrow> bool" where
  "missing [] man = True"
| "missing (pod # rest) man =
     (if Manifest_Id (mr_Manifest man) = Manifest_Id (manifest pod) then False
      else missing rest man)"

text \<open>
  The first outer loop, over \<open>current\<close>, with \<open>newCurrent\<close> as it grows. It stops
  where \<open>pod.shutdownCh <- true\<close> finds the buffer full.
\<close>

fun killRemoved ::
  "ManifestResult list \<Rightarrow> PodWatch list \<Rightarrow> PodWatch list \<times> world
    \<Rightarrow> (PodWatch list \<times> world) option" where
  "killRemoved reality [] (newCurrent, w) = Some (newCurrent, w)"
| "killRemoved reality (pod # rest) (newCurrent, w) =
     (if inReality reality pod = False
      then (case chan_send w (shutdownCh pod) True of
              None \<Rightarrow> None
            | Some w' \<Rightarrow> killRemoved reality rest (newCurrent, w'))
      else killRemoved reality rest (newCurrent @ [pod], w))"

text \<open>The second outer loop, over \<open>reality\<close>.\<close>

fun startMissing ::
  "http_Client \<Rightarrow> string \<Rightarrow> Logger \<Rightarrow> ManifestResult list \<Rightarrow> PodWatch list \<times> world
    \<Rightarrow> PodWatch list \<times> world" where
  "startMissing client node lg [] (newCurrent, w) = (newCurrent, w)"
| "startMissing client node lg (man # rest) (newCurrent, w) =
     (if missing newCurrent man \<and> StatusPort (mr_Manifest man) \<noteq> 0
      then
        (case make_chan w of
           (c, w1) \<Rightarrow>
             (let newPod = \<lparr>manifest = mr_Manifest man, shutdownCh = c, logger = lg\<rparr>;
                  sc = \<lparr>ID = Manifest_Id (manifest newPod), Node = node,
                        URI = Sprintf_s_d node (StatusPort (manifest newPod)),
                        HTTP = StatusHTTP (manifest newPod), Client = client,
                        lastCheck = 0, lastStatus = []\<rparr>
              in startMissing client node lg rest
                   (newCurrent @ [newPod],
                    w1\<lparr>spawned := spawned w1 @ [(newPod, sc, shutdownCh newPod)]\<rparr>)))
      else startMissing client node lg rest (newCurrent, w))"

definition updatePods ::
  "world \<Rightarrow> http_Client \<Rightarrow> PodWatch list \<Rightarrow> ManifestResult list \<Rightarrow> string \<Rightarrow> Logger
    \<Rightarrow> (PodWatch list \<times> world) option" where
  "updatePods w client current reality node lg =
     (case killRemoved reality current ([], w) of
        None \<Rightarrow> None
      | Some pw \<Rightarrow> Some (startMissing client node lg reality pw))"

definition updateHealthMonitors ::
  "env \<Rightarrow> world \<Rightarrow> http_Client \<Rightarrow> PodWatch list \<Rightarrow> string \<Rightarrow> Logger
    \<Rightarrow> (PodWatch list \<times> world) option" where
  "updateHealthMonitors e w client watchedPods node lg =
     (let path = RealityPath node
      in case ListPods e path of
           (reality, err) \<Rightarrow>
             (let w1 = (case err of
                          None \<Rightarrow> w
                        | Some err \<Rightarrow>
                            w\<lparr>logged := logged w @
                                [(''failed to get pods from reality store'', err)]\<rparr>)
              in updatePods w1 client watchedPods reality node lg))"

text \<open>
  \<open>MonitorPodHealth\<close> after its store and client have been obtained (a failure there
  ends the process): one reconciliation at once, then one at every firing of the
  three-second timer until \<open>shutdownCh\<close> delivers. \<open>None\<close> is a supervisor stopped at
  a send.
\<close>

datatype sup_event = PollTimer env | ShutdownCh

fun MonitorPodHealth_loop ::
  "http_Client \<Rightarrow> string \<Rightarrow> Logger \<Rightarrow> PodWatch list \<times> world \<Rightarrow> sup_event list
    \<Rightarrow> (PodWatch list \<times> world) option" where
  "MonitorPodHealth_loop client node lg (pods, w) [] = Some (pods, w)"
| "MonitorPodHealth_loop client node lg (pods, w) (PollTimer e # evs) =
     (case updateHealthMonitors e w client pods node lg of
        None \<Rightarrow> None
      | Some pw \<Rightarrow> MonitorPodHealth_loop client node lg pw evs)"
| "MonitorPodHealth_loop client node lg (pods, w) (ShutdownCh # evs) = Some (pods, w)"

definition MonitorPodHealth ::
  "http_Client \<Rightarrow> string \<Rightarrow> Logger \<Rightarrow> world \<Rightarrow> env \<Rightarrow> sup_event list
    \<Rightarrow> (PodWatch list \<times> world) option" where
  "MonitorPodHealth client node lg w e0 evs =
     (case updateHealthMonitors e0 w client [] node lg of
        None \<Rightarrow> None
      | Some pw \<Rightarrow> MonitorPodHealth_loop client node lg pw evs)"

section \<open>Inputs for the worked cases\<close>

text \<open>
  A pod \<open>web\<close> with a status port on node \<open>node1\<close>, the \<open>PodWatch\<close> and the
  \<open>StatusCheck\<close> that \<open>updatePods\<close> builds for it from channel \<open>0\<close>, and a second
  \<open>PodWatch\<close> for the same manifest on channel \<open>1\<close>.
\<close>

definition web :: Manifest where
  "web = \<lparr>Manifest_Id = ''web'', StatusPort = 8080, StatusHTTP = False\<rparr>"

definition web_pod :: PodWatch where
  "web_pod = \<lparr>manifest = web, shutdownCh = 0, logger = 0\<rparr>"

definition web_pod_again :: PodWatch where
  "web_pod_again = \<lparr>manifest = web, shutdownCh = 1, logger = 0\<rparr>"

definition web_check :: StatusCheck where
  "web_check =
     \<lparr>ID = ''web'', Node = ''node1'', URI = ''node1:8080'', HTTP = False, Client = 0,
      lastCheck = 0, lastStatus = []\<rparr>"

definition world_empty :: world where
  "world_empty = \<lparr>buffer = (\<lambda>c. []), sent = [], spawned = [], nextCh = 0, logged = []\<rparr>"

text \<open>The world once the monitor of \<open>web\<close> runs.\<close>

definition world_web :: world where
  "world_web =
     \<lparr>buffer = (\<lambda>c. []), sent = [], spawned = [(web_pod, web_check, 0)], nextCh = 1,
      logged = []\<rparr>"

definition ok_response :: Response where
  "ok_response = \<lparr>StatusCode = 200, Body = (''ok'', None)\<rparr>"

definition unavailable_response :: Response where
  "unavailable_response = \<lparr>StatusCode = 503, Body = (''down'', None)\<rparr>"

definition truncated_response :: Response where
  "truncated_response =
     \<lparr>StatusCode = 200, Body = (''o'', Some (errorString ''unexpected EOF''))\<rparr>"

text \<open>
  Everything works at time \<open>now\<close>: the listing holds \<open>web\<close>, the probe answers
  \<open>200 ok\<close>, the put succeeds at \<open>now\<close>.
\<close>

definition healthy_env :: "Time \<Rightarrow> env" where
  "healthy_env now =
     \<lparr>ListPods = (\<lambda>path. ([\<lparr>mr_Manifest = web\<rparr>], None)),
      PutHealth = (\<lambda>r. (now, None)),
      HttpsStatusCheck = (\<lambda>client uri. (Some ok_response, None)),
      HttpStatusCheck = (\<lambda>client uri. (Some ok_response, None)),
      Now = now\<rparr>"


text \<open>The same, but the KV store is unreachable: the listing and the put fail.\<close>

definition kv_down_env :: "Time \<Rightarrow> env" where
  "kv_down_env now =
     (healthy_env now)
       \<lparr>ListPods := (\<lambda>path. ([], Some (errorString ''connection refused''))),
        PutHealth := (\<lambda>r. (0, Some (errorString ''connection refused'')))\<rparr>"

text \<open>A second pod, on the same node.\<close>

definition api :: Manifest where
  "api = \<lparr>Manifest_Id = ''api'', StatusPort = 9090, StatusHTTP = True\<rparr>"

section \<open>Vocabulary of the properties\<close>

text \<open>The manifest id of a \<open>PodWatch\<close> and of a listed manifest.\<close>

abbreviation pod_id :: "PodWatch \<Rightarrow> string" where
  "pod_id pod \<equiv> Manifest_Id (manifest pod)"

abbreviation man_id :: "ManifestResult \<Rightarrow> string" where
  "man_id man \<equiv> Manifest_Id (mr_Manifest man)"

text \<open>
  A supervised set is in order in a world when each \<open>PodWatch\<close> has a channel of its
  own, made before now and holding no value, and a monitor that was launched for it
  on that channel.
\<close>

definition supervised_in_order :: "PodWatch list \<times> world \<Rightarrow> bool" where
  "supervised_in_order pw =
     (distinct (map shutdownCh (fst pw)) \<and>
      (\<forall>pod \<in> set (fst pw).
         shutdownCh pod < nextCh (snd pw) \<and>
         buffer (snd pw) (shutdownCh pod) = [] \<and>
         (\<exists>sc. (pod, sc, shutdownCh pod) \<in> set (spawned (snd pw)))))"

text \<open>The goroutines launched between the world \<open>w\<close> and the later world \<open>w'\<close>.\<close>

definition launched_between :: "world \<Rightarrow> world \<Rightarrow> (PodWatch \<times> StatusCheck \<times> chan) list" where
  "launched_between w w' = drop (length (spawned w)) (spawned w')"

section \<open>Properties of the fake status store\<close>

text \<open>
  C8. The three operations that need transactions, \<open>CASStatus\<close>, \<open>SetTxn\<close> and
  \<open>DeleteStatusTxn\<close>, return an error on every input and hand the store back as it
  was: neither the map of statuses nor \<open>LastIndex\<close> changes.
\<close>

theorem txn_operations_refuse:
  "(\<exists>e. CASStatus s t ident ns status modifyIndex = (Some e, s)) \<and>
   (\<exists>e. SetTxn s t ident ns status = (Some e, s)) \<and>
   (\<exists>e. DeleteStatusTxn s t ident ns = (Some e, s))"
  by (simp add: CASStatus_def SetTxn_def DeleteStatusTxn_def)

text \<open>
  C7. For a key that the store does not hold, \<open>GetStatus\<close> returns the typed
  \<open>NoStatusError\<close> whose key is \<open>status/<type>/<id>/<namespace>\<close>, with query
  metadata whose \<open>LastIndex\<close> is the store's; for a key that it holds, it returns the
  stored status, the same metadata, and no error.
\<close>

theorem GetStatus_absent_present:
  "(Statuses s \<lparr>resourceType = t, resourceID = ident, namespace = ns\<rparr> = None \<longrightarrow>
      GetStatus s t ident ns =
        (Status_zero, \<lparr>qm_LastIndex = LastIndex s\<rparr>,
         Some (NoStatusError (''status/'' @ t @ ''/'' @ ident @ ''/'' @ ns)))) \<and>
   (\<forall>status. Statuses s \<lparr>resourceType = t, resourceID = ident, namespace = ns\<rparr> = Some status \<longrightarrow>
      GetStatus s t ident ns = (status, \<lparr>qm_LastIndex = LastIndex s\<rparr>, None))"
  by (simp add: GetStatus_def String_def)

text \<open>The theorem at work on the new store, and on the store after one \<open>SetStatus\<close>.\<close>

theorem GetStatus_absent_present_witness:
  "GetStatus NewFake ''pcs'' ''web'' ''default'' =
     ([], \<lparr>qm_LastIndex = 1234\<rparr>, Some (NoStatusError ''status/pcs/web/default'')) \<and>
   GetStatus (snd (SetStatus NewFake ''pcs'' ''web'' ''default'' [1, 2])) ''pcs'' ''web'' ''default'' =
     ([1, 2], \<lparr>qm_LastIndex = 1235\<rparr>, None)"
  using GetStatus_absent_present [of NewFake "''pcs''" "''web''" "''default''"]
    GetStatus_absent_present
      [of "snd (SetStatus NewFake ''pcs'' ''web'' ''default'' [1, 2])" "''pcs''" "''web''" "''default''"]
  by (simp add: NewFake_def SetStatus_def Status_zero_def)

subsection \<open>Polling\<close>

lemma WatchStatus_Some_D:
  "WatchStatus obs fuel i t ident ns w = Some r \<Longrightarrow>
   \<exists>j. i \<le> j \<and> j < i + fuel \<and> w \<le> LastIndex (obs j) \<and>
       (\<forall>k. i \<le> k \<and> k < j \<longrightarrow> LastIndex (obs k) < w) \<and>
       r = GetStatus (obs (Suc j)) t ident ns"
proof (induction fuel arbitrary: i)
  case 0
  then show ?case by simp
next
  case (Suc fuel)
  show ?case
  proof (cases "w \<le> LastIndex (obs i)")
    case True
    with Suc.prems have "r = GetStatus (obs (Suc i)) t ident ns" by simp
    with True show ?thesis by (intro exI [of _ i]) auto
  next
    case False
    with Suc.prems have "WatchStatus obs fuel (Suc i) t ident ns w = Some r" by simp
    from Suc.IH [OF this] obtain j where j:
      "Suc i \<le> j" "j < Suc i + fuel" "w \<le> LastIndex (obs j)"
      "\<forall>k. Suc i \<le> k \<and> k < j \<longrightarrow> LastIndex (obs k) < w"
      "r = GetStatus (obs (Suc j)) t ident ns" by blast
    have "\<forall>k. i \<le> k \<and> k < j \<longrightarrow> LastIndex (obs k) < w"
    proof (intro allI impI)
      fix k assume k: "i \<le> k \<and> k < j"
      show "LastIndex (obs k) < w"
      proof (cases "k = i")
        case True with False show ?thesis by simp
      next
        case False with k j(4) show ?thesis by simp
      qed
    qed
    with j show ?thesis by (intro exI [of _ j]) simp
  qed
qed

lemma WatchStatus_Some_I:
  "i \<le> j \<Longrightarrow> j < i + fuel \<Longrightarrow> w \<le> LastIndex (obs j) \<Longrightarrow>
   \<forall>k. i \<le> k \<and> k < j \<longrightarrow> LastIndex (obs k) < w \<Longrightarrow>
   WatchStatus obs fuel i t ident ns w = Some (GetStatus (obs (Suc j)) t ident ns)"
proof (induction fuel arbitrary: i)
  case 0
  then show ?case by simp
next
  case (Suc fuel)
  show ?case
  proof (cases "i = j")
    case True
    with Suc.prems show ?thesis by simp
  next
    case False
    with Suc.prems have lt: "i < j" by simp
    with Suc.prems have no: "\<not> w \<le> LastIndex (obs i)" by auto
    have "WatchStatus obs fuel (Suc i) t ident ns w = Some (GetStatus (obs (Suc j)) t ident ns)"
      using Suc.prems lt by (intro Suc.IH) auto
    with no show ?thesis by simp
  qed
qed

text \<open>
  C9, as amended. \<open>WatchStatus\<close> on the fake returns only when the \<open>LastIndex\<close> of the
  whole store (the fake keeps no index per key) has reached \<open>waitIndex\<close>, that is
  \<open>waitIndex \<le> LastIndex\<close>; it does so at the first round at which that holds, and it
  then returns what \<open>GetStatus\<close> returns for the key: its current value, or the
  not-found result for a key that is absent.
\<close>

theorem WatchStatus_returns:
  "WatchStatus obs fuel 0 t ident ns waitIndex = Some r \<longleftrightarrow>
   (\<exists>j < fuel. waitIndex \<le> LastIndex (obs j) \<and>
       (\<forall>k < j. LastIndex (obs k) < waitIndex) \<and>
       r = GetStatus (obs (Suc j)) t ident ns)"
proof
  assume "WatchStatus obs fuel 0 t ident ns waitIndex = Some r"
  from WatchStatus_Some_D [OF this] show
    "\<exists>j < fuel. waitIndex \<le> LastIndex (obs j) \<and>
       (\<forall>k < j. LastIndex (obs k) < waitIndex) \<and>
       r = GetStatus (obs (Suc j)) t ident ns" by auto
next
  assume "\<exists>j < fuel. waitIndex \<le> LastIndex (obs j) \<and>
       (\<forall>k < j. LastIndex (obs k) < waitIndex) \<and>
       r = GetStatus (obs (Suc j)) t ident ns"
  then obtain j where j: "j < fuel" "waitIndex \<le> LastIndex (obs j)"
    "\<forall>k < j. LastIndex (obs k) < waitIndex" "r = GetStatus (obs (Suc j)) t ident ns"
    by blast
  have "WatchStatus obs fuel 0 t ident ns waitIndex = Some (GetStatus (obs (Suc j)) t ident ns)"
    using j by (intro WatchStatus_Some_I) auto
  with j show "WatchStatus obs fuel 0 t ident ns waitIndex = Some r" by simp
qed

text \<open>
  The theorem at work: the caller waits for index 1235 on the new store; another
  goroutine sets the status before the third round, and the third round returns it.
\<close>

theorem WatchStatus_returns_witness:
  "WatchStatus (changes_at NewFake 2 (snd (SetStatus NewFake ''pcs'' ''web'' ''default'' [7]))) 3 0
     ''pcs'' ''web'' ''default'' 1235 =
   Some ([7], \<lparr>qm_LastIndex = 1235\<rparr>, None)"
proof -
  let ?s = "snd (SetStatus NewFake ''pcs'' ''web'' ''default'' [7])"
  let ?obs = "changes_at NewFake 2 ?s"
  have "\<exists>j < 3. (1235 :: 64 word) \<le> LastIndex (?obs j) \<and>
       (\<forall>k < j. LastIndex (?obs k) < 1235) \<and>
       ([7], \<lparr>qm_LastIndex = 1235\<rparr>, None) = GetStatus (?obs (Suc j)) ''pcs'' ''web'' ''default''"
    by (intro exI [of _ 2])
      (simp add: changes_at_def NewFake_def SetStatus_def GetStatus_def)
  then show ?thesis
    using WatchStatus_returns [of ?obs 3 "''pcs''" "''web''" "''default''" 1235] by blast
qed

text \<open>
  The claim as stated, a return only when the index of the key strictly exceeds
  \<open>waitIndex\<close>, fails on the new store with \<open>waitIndex\<close> 1234: the index is 1234, not
  above it, the key has never been written, and the first round returns.
\<close>

theorem WatchStatus_equal_index_counterexample:
  "WatchStatus (quiescent NewFake) 1 0 ''pcs'' ''web'' ''default'' 1234 =
     Some (Status_zero, \<lparr>qm_LastIndex = 1234\<rparr>, Some (NoStatusError ''status/pcs/web/default'')) \<and>
   LastIndex NewFake = 1234 \<and> Statuses NewFake = Map.empty"
  by (simp add: quiescent_def NewFake_def GetStatus_def String_def)

section \<open>The supervisor's reconciliation\<close>

lemma inReality_iff: "inReality reality pod \<longleftrightarrow> pod_id pod \<in> man_id ` set reality"
  by (induction reality) auto

lemma missing_iff: "missing pods man \<longleftrightarrow> man_id man \<notin> pod_id ` set pods"
  by (induction pods) auto

subsection \<open>The first loop\<close>

lemma killRemoved_Some_fst:
  "killRemoved reality current (acc, w) = Some (acc', w1) \<Longrightarrow>
   acc' = acc @ filter (inReality reality) current"
proof (induction current arbitrary: acc w)
  case Nil
  then show ?case by simp
next
  case (Cons pod rest)
  show ?case
  proof (cases "inReality reality pod")
    case True
    with Cons.prems have "killRemoved reality rest (acc @ [pod], w) = Some (acc', w1)"
      by simp
    from Cons.IH [OF this] True show ?thesis by simp
  next
    case False
    with Cons.prems obtain w' where "chan_send w (shutdownCh pod) True = Some w'"
      and "killRemoved reality rest (acc, w') = Some (acc', w1)"
      by (auto split: option.splits)
    from Cons.IH [OF this(2)] False show ?thesis by simp
  qed
qed

lemma killRemoved_returns:
  "distinct (map shutdownCh current) \<Longrightarrow>
   \<forall>pod \<in> set current. buffer w (shutdownCh pod) = [] \<Longrightarrow>
   \<exists>w1. killRemoved reality current (acc, w) =
           Some (acc @ filter (inReality reality) current, w1) \<and>
        sent w1 = sent w @ map (\<lambda>pod. (shutdownCh pod, True))
          (filter (\<lambda>pod. \<not> inReality reality pod) current) \<and>
        (\<forall>c. buffer w1 c =
           (if c \<in> shutdownCh ` {pod \<in> set current. \<not> inReality reality pod} then [True]
            else buffer w c)) \<and>
        nextCh w1 = nextCh w \<and> spawned w1 = spawned w \<and> logged w1 = logged w"
proof (induction current arbitrary: acc w)
  case Nil
  then show ?case by simp
next
  case (Cons pod rest)
  from Cons.prems have d: "distinct (map shutdownCh rest)"
    and fresh: "shutdownCh pod \<notin> shutdownCh ` set rest"
    and empty: "buffer w (shutdownCh pod) = []"
    and empties: "\<forall>q \<in> set rest. buffer w (shutdownCh q) = []"
    by simp_all
  show ?case
  proof (cases "inReality reality pod")
    case True
    from Cons.IH [OF d empties, of "acc @ [pod]"] True show ?thesis
      by auto
  next
    case False
    let ?w' = "w\<lparr>buffer := (buffer w)(shutdownCh pod := [True]),
      sent := sent w @ [(shutdownCh pod, True)]\<rparr>"
    from empty have snd: "chan_send w (shutdownCh pod) True = Some ?w'"
      by (simp add: chan_send_def)
    from empties fresh have "\<forall>q \<in> set rest. buffer ?w' (shutdownCh q) = []"
      by (auto simp: image_iff)
    from Cons.IH [OF d this, of acc] obtain w1 where w1:
      "killRemoved reality rest (acc, ?w') = Some (acc @ filter (inReality reality) rest, w1)"
      "sent w1 = sent ?w' @ map (\<lambda>pod. (shutdownCh pod, True))
          (filter (\<lambda>pod. \<not> inReality reality pod) rest)"
      "\<forall>c. buffer w1 c =
           (if c \<in> shutdownCh ` {pod \<in> set rest. \<not> inReality reality pod} then [True]
            else buffer ?w' c)"
      "nextCh w1 = nextCh ?w'" "spawned w1 = spawned ?w'" "logged w1 = logged ?w'"
      by blast
    have run: "killRemoved reality (pod # rest) (acc, w) =
        Some (acc @ filter (inReality reality) (pod # rest), w1)"
      using False snd w1(1) by simp
    have snt: "sent w1 = sent w @ map (\<lambda>pod. (shutdownCh pod, True))
        (filter (\<lambda>pod. \<not> inReality reality pod) (pod # rest))"
      using False w1(2) by simp
    have buf: "\<forall>c. buffer w1 c =
        (if c \<in> shutdownCh ` {q \<in> set (pod # rest). \<not> inReality reality q} then [True]
         else buffer w c)"
    proof
      fix c
      have "{q \<in> set (pod # rest). \<not> inReality reality q} =
          insert pod {q \<in> set rest. \<not> inReality reality q}"
        using False by auto
      then show "buffer w1 c =
          (if c \<in> shutdownCh ` {q \<in> set (pod # rest). \<not> inReality reality q} then [True]
           else buffer w c)"
        using w1(3) by simp
    qed
    from run snt buf w1(4,5,6) show ?thesis by (intro exI [of _ w1]) simp
  qed
qed

subsection \<open>The second loop\<close>

lemma startMissing_Cons_old:
  "\<not> (missing acc man \<and> StatusPort (mr_Manifest man) \<noteq> 0) \<Longrightarrow>
   startMissing client node lg (man # rest) (acc, w) = startMissing client node lg rest (acc, w)"
  by (simp only: startMissing.simps if_False)

lemma startMissing_Cons_new:
  assumes "missing acc man" and "StatusPort (mr_Manifest man) \<noteq> 0"
  shows "\<exists>newPod sc w'.
      startMissing client node lg (man # rest) (acc, w) =
        startMissing client node lg rest (acc @ [newPod], w') \<and>
      manifest newPod = mr_Manifest man \<and> shutdownCh newPod = nextCh w \<and>
      ID sc = man_id man \<and> Node sc = node \<and>
      spawned w' = spawned w @ [(newPod, sc, shutdownCh newPod)] \<and>
      nextCh w' = Suc (nextCh w) \<and> buffer w' = (buffer w)(nextCh w := []) \<and>
      sent w' = sent w \<and> logged w' = logged w"
proof -
  let ?newPod = "\<lparr>manifest = mr_Manifest man, shutdownCh = nextCh w, logger = lg\<rparr>"
  let ?sc = "\<lparr>ID = Manifest_Id (manifest ?newPod), Node = node,
      URI = Sprintf_s_d node (StatusPort (manifest ?newPod)),
      HTTP = StatusHTTP (manifest ?newPod), Client = client,
      lastCheck = 0, lastStatus = []\<rparr>"
  let ?w' = "(snd (make_chan w))
      \<lparr>spawned := spawned (snd (make_chan w)) @ [(?newPod, ?sc, shutdownCh ?newPod)]\<rparr>"
  from assms have "startMissing client node lg (man # rest) (acc, w) =
      startMissing client node lg rest (acc @ [?newPod], ?w')"
    by (simp add: make_chan_def Let_def)
  then show ?thesis
    by (intro exI [of _ ?newPod] exI [of _ ?sc] exI [of _ ?w']) (simp add: make_chan_def)
qed

declare startMissing.simps(2) [simp del]

lemma startMissing_sent:
  "sent (snd (startMissing client node lg reality (acc, w))) = sent w"
proof (induction reality arbitrary: acc w)
  case Nil
  show ?case by simp
next
  case (Cons man rest)
  show ?case
  proof (cases "missing acc man \<and> StatusPort (mr_Manifest man) \<noteq> 0")
    case True
    then obtain newPod and sc :: StatusCheck and w' where
      "startMissing client node lg (man # rest) (acc, w) =
         startMissing client node lg rest (acc @ [newPod], w')" "sent w' = sent w"
      using startMissing_Cons_new [of acc man client node lg rest w] by blast
    with Cons.IH [of "acc @ [newPod]" w'] show ?thesis by simp
  next
    case False
    then have "startMissing client node lg (man # rest) (acc, w) =
        startMissing client node lg rest (acc, w)"
      by (rule startMissing_Cons_old)
    with Cons.IH [of acc w] show ?thesis by simp
  qed
qed

lemma startMissing_buffer:
  "c < nextCh w \<Longrightarrow> buffer (snd (startMissing client node lg reality (acc, w))) c = buffer w c"
proof (induction reality arbitrary: acc w)
  case Nil
  show ?case by simp
next
  case (Cons man rest)
  show ?case
  proof (cases "missing acc man \<and> StatusPort (mr_Manifest man) \<noteq> 0")
    case True
    then obtain newPod and sc :: StatusCheck and w' where step:
      "startMissing client node lg (man # rest) (acc, w) =
         startMissing client node lg rest (acc @ [newPod], w')"
      "nextCh w' = Suc (nextCh w)" "buffer w' = (buffer w)(nextCh w := [])"
      using startMissing_Cons_new [of acc man client node lg rest w] by blast
    from Cons.prems step(2) have "c < nextCh w'" by simp
    from Cons.IH [OF this, of "acc @ [newPod]"] step Cons.prems show ?thesis by simp
  next
    case False
    then have "startMissing client node lg (man # rest) (acc, w) =
        startMissing client node lg rest (acc, w)"
      by (rule startMissing_Cons_old)
    with Cons.IH [OF Cons.prems, of acc] show ?thesis by simp
  qed
qed

lemma startMissing_ids:
  "pod_id ` set (fst (startMissing client node lg reality (acc, w)))
     \<subseteq> pod_id ` set acc \<union> man_id ` set reality"
proof (induction reality arbitrary: acc w)
  case Nil
  show ?case by simp
next
  case (Cons man rest)
  show ?case
  proof (cases "missing acc man \<and> StatusPort (mr_Manifest man) \<noteq> 0")
    case True
    then obtain newPod and sc :: StatusCheck and w' where step:
      "startMissing client node lg (man # rest) (acc, w) =
         startMissing client node lg rest (acc @ [newPod], w')"
      "manifest newPod = mr_Manifest man"
      using startMissing_Cons_new [of acc man client node lg rest w] by blast
    from Cons.IH [of "acc @ [newPod]" w'] step show ?thesis by auto
  next
    case False
    then have "startMissing client node lg (man # rest) (acc, w) =
        startMissing client node lg rest (acc, w)"
      by (rule startMissing_Cons_old)
    with Cons.IH [of acc w] show ?thesis by auto
  qed
qed

lemma startMissing_distinct:
  "distinct (map pod_id acc) \<Longrightarrow>
   distinct (map pod_id (fst (startMissing client node lg reality (acc, w))))"
proof (induction reality arbitrary: acc w)
  case Nil
  then show ?case by simp
next
  case (Cons man rest)
  show ?case
  proof (cases "missing acc man \<and> StatusPort (mr_Manifest man) \<noteq> 0")
    case True
    then obtain newPod and sc :: StatusCheck and w' where step:
      "startMissing client node lg (man # rest) (acc, w) =
         startMissing client node lg rest (acc @ [newPod], w')"
      "manifest newPod = mr_Manifest man"
      using startMissing_Cons_new [of acc man client node lg rest w] by blast
    from True Cons.prems step(2) have "distinct (map pod_id (acc @ [newPod]))"
      by (auto simp: missing_iff)
    from Cons.IH [OF this, of w'] step(1) show ?thesis by simp
  next
    case False
    then have "startMissing client node lg (man # rest) (acc, w) =
        startMissing client node lg rest (acc, w)"
      by (rule startMissing_Cons_old)
    with Cons.IH [OF Cons.prems, of w] show ?thesis by simp
  qed
qed

lemma startMissing_keeps:
  "set acc \<subseteq> set (fst (startMissing client node lg reality (acc, w)))"
proof (induction reality arbitrary: acc w)
  case Nil
  show ?case by simp
next
  case (Cons man rest)
  show ?case
  proof (cases "missing acc man \<and> StatusPort (mr_Manifest man) \<noteq> 0")
    case True
    then obtain newPod and sc :: StatusCheck and w' where step:
      "startMissing client node lg (man # rest) (acc, w) =
         startMissing client node lg rest (acc @ [newPod], w')"
      using startMissing_Cons_new [of acc man client node lg rest w] by blast
    from Cons.IH [of "acc @ [newPod]" w'] step show ?thesis by auto
  next
    case False
    then have "startMissing client node lg (man # rest) (acc, w) =
        startMissing client node lg rest (acc, w)"
      by (rule startMissing_Cons_old)
    with Cons.IH [of acc w] show ?thesis by simp
  qed
qed

lemma startMissing_covers:
  "man \<in> set reality \<Longrightarrow> StatusPort (mr_Manifest man) \<noteq> 0 \<Longrightarrow>
   man_id man \<in> pod_id ` set (fst (startMissing client node lg reality (acc, w)))"
proof (induction reality arbitrary: acc w)
  case Nil
  then show ?case by simp
next
  case (Cons m rest)
  show ?case
  proof (cases "missing acc m \<and> StatusPort (mr_Manifest m) \<noteq> 0")
    case True
    then obtain newPod and sc :: StatusCheck and w' where step:
      "startMissing client node lg (m # rest) (acc, w) =
         startMissing client node lg rest (acc @ [newPod], w')"
      "manifest newPod = mr_Manifest m"
      using startMissing_Cons_new [of acc m client node lg rest w] by blast
    show ?thesis
    proof (cases "man = m")
      case True
      have "newPod \<in> set (fst (startMissing client node lg rest (acc @ [newPod], w')))"
        using startMissing_keeps [of "acc @ [newPod]" client node lg rest w'] by auto
      then have "pod_id newPod \<in>
          pod_id ` set (fst (startMissing client node lg rest (acc @ [newPod], w')))"
        by (rule imageI)
      with step True show ?thesis by simp
    next
      case False
      with Cons.prems have "man \<in> set rest" by simp
      from Cons.IH [OF this Cons.prems(2), of "acc @ [newPod]" w'] step(1)
      show ?thesis by simp
    qed
  next
    case False
    then have step: "startMissing client node lg (m # rest) (acc, w) =
        startMissing client node lg rest (acc, w)"
      by (rule startMissing_Cons_old)
    show ?thesis
    proof (cases "man = m")
      case True
      with False Cons.prems(2) have "\<not> missing acc m" by simp
      then obtain p where p: "p \<in> set acc" "pod_id p = man_id m"
        by (auto simp: missing_iff)
      from p(1) startMissing_keeps [of acc client node lg rest w]
      have "p \<in> set (fst (startMissing client node lg rest (acc, w)))" by auto
      then have "pod_id p \<in> pod_id ` set (fst (startMissing client node lg rest (acc, w)))"
        by (rule imageI)
      with step p(2) True show ?thesis by simp
    next
      case False
      with Cons.prems have "man \<in> set rest" by simp
      from Cons.IH [OF this Cons.prems(2), of acc w] step show ?thesis by simp
    qed
  qed
qed

lemma startMissing_launched:
  "\<exists>new. spawned (snd (startMissing client node lg reality (acc, w))) = spawned w @ new \<and>
     (\<forall>(pod, sc, ch) \<in> set new. ch = shutdownCh pod \<and> ID sc = pod_id pod \<and> Node sc = node)"
proof (induction reality arbitrary: acc w)
  case Nil
  show ?case by simp
next
  case (Cons man rest)
  show ?case
  proof (cases "missing acc man \<and> StatusPort (mr_Manifest man) \<noteq> 0")
    case True
    then obtain newPod and sc :: StatusCheck and w' where step:
      "startMissing client node lg (man # rest) (acc, w) =
         startMissing client node lg rest (acc @ [newPod], w')"
      "manifest newPod = mr_Manifest man" "ID sc = man_id man" "Node sc = node"
      "spawned w' = spawned w @ [(newPod, sc, shutdownCh newPod)]"
      using startMissing_Cons_new [of acc man client node lg rest w] by blast
    from Cons.IH [of "acc @ [newPod]" w'] obtain new where new:
      "spawned (snd (startMissing client node lg rest (acc @ [newPod], w'))) = spawned w' @ new"
      "\<forall>(pod, sc, ch) \<in> set new. ch = shutdownCh pod \<and> ID sc = pod_id pod \<and> Node sc = node"
      by blast
    from step new show ?thesis
      by (intro exI [of _ "(newPod, sc, shutdownCh newPod) # new"]) simp
  next
    case False
    then have "startMissing client node lg (man # rest) (acc, w) =
        startMissing client node lg rest (acc, w)"
      by (rule startMissing_Cons_old)
    with Cons.IH [of acc w] show ?thesis by simp
  qed
qed

lemma startMissing_in_order:
  "supervised_in_order (acc, w) \<Longrightarrow>
   supervised_in_order (startMissing client node lg reality (acc, w))"
proof (induction reality arbitrary: acc w)
  case Nil
  then show ?case by simp
next
  case (Cons man rest)
  show ?case
  proof (cases "missing acc man \<and> StatusPort (mr_Manifest man) \<noteq> 0")
    case True
    then obtain newPod and sc :: StatusCheck and w' where step:
      "startMissing client node lg (man # rest) (acc, w) =
         startMissing client node lg rest (acc @ [newPod], w')"
      "shutdownCh newPod = nextCh w"
      "spawned w' = spawned w @ [(newPod, sc, shutdownCh newPod)]"
      "nextCh w' = Suc (nextCh w)" "buffer w' = (buffer w)(nextCh w := [])"
      using startMissing_Cons_new [of acc man client node lg rest w] by blast
    from Cons.prems step(2-5) have "supervised_in_order (acc @ [newPod], w')"
      by (fastforce simp: supervised_in_order_def)
    from Cons.IH [OF this] step(1) show ?thesis by simp
  next
    case False
    then have "startMissing client node lg (man # rest) (acc, w) =
        startMissing client node lg rest (acc, w)"
      by (rule startMissing_Cons_old)
    with Cons.IH [OF Cons.prems] show ?thesis by simp
  qed
qed

subsection \<open>One reconciliation\<close>

lemma distinct_filter_one:
  "distinct (map f xs) \<Longrightarrow> x \<in> f ` set xs \<Longrightarrow> length (filter (\<lambda>p. f p = x) xs) = 1"
proof (induction xs)
  case Nil
  then show ?case by simp
next
  case (Cons a xs)
  show ?case
  proof (cases "f a = x")
    case True
    with Cons.prems have "\<forall>p \<in> set xs. f p \<noteq> x" by (auto simp: image_iff)
    then have "filter (\<lambda>p. f p = x) xs = []" by (simp add: filter_empty_conv)
    with True show ?thesis by simp
  next
    case False
    with Cons show ?thesis by auto
  qed
qed

lemma updatePods_Some:
  assumes "updatePods w client current reality node lg = Some (newCurrent, w')"
  shows "\<exists>w1. killRemoved reality current ([], w) =
            Some (filter (inReality reality) current, w1) \<and>
          startMissing client node lg reality (filter (inReality reality) current, w1) =
            (newCurrent, w')"
proof -
  from assms obtain acc w1 where k: "killRemoved reality current ([], w) = Some (acc, w1)"
    and s: "startMissing client node lg reality (acc, w1) = (newCurrent, w')"
    by (auto simp: updatePods_def split: option.splits)
  from killRemoved_Some_fst [OF k] have "acc = filter (inReality reality) current" by simp
  with k s show ?thesis by blast
qed

lemma updatePods_distinct:
  assumes "distinct (map pod_id current)"
    and "updatePods w client current reality node lg = Some (newCurrent, w')"
  shows "distinct (map pod_id newCurrent)"
proof -
  from updatePods_Some [OF assms(2)] obtain w1 where
    s: "startMissing client node lg reality (filter (inReality reality) current, w1) =
          (newCurrent, w')" by blast
  from assms(1) have "distinct (map pod_id (filter (inReality reality) current))"
    by (rule distinct_map_filter)
  from startMissing_distinct [OF this, of client node lg reality w1] s show ?thesis
    by simp
qed

lemma updatePods_ids:
  assumes "updatePods w client current reality node lg = Some (newCurrent, w')"
  shows "pod_id ` set newCurrent \<subseteq> man_id ` set reality"
proof -
  from updatePods_Some [OF assms] obtain w1 where
    s: "startMissing client node lg reality (filter (inReality reality) current, w1) =
          (newCurrent, w')" by blast
  have "pod_id ` set (filter (inReality reality) current) \<subseteq> man_id ` set reality"
    by (auto simp: inReality_iff)
  with startMissing_ids [of client node lg reality "filter (inReality reality) current" w1] s
  show ?thesis by auto
qed

lemma updatePods_covers:
  assumes "updatePods w client current reality node lg = Some (newCurrent, w')"
    and "man \<in> set reality" and "StatusPort (mr_Manifest man) \<noteq> 0"
  shows "man_id man \<in> pod_id ` set newCurrent"
proof -
  from updatePods_Some [OF assms(1)] obtain w1 where
    s: "startMissing client node lg reality (filter (inReality reality) current, w1) =
          (newCurrent, w')" by blast
  from startMissing_covers
    [OF assms(2,3), of client node lg "filter (inReality reality) current" w1] s
  show ?thesis by simp
qed

text \<open>
  On a set that is in order no send waits: the reconciliation returns, the set it returns
  is in order again, the values sent are \<open>true\<close> on the channel of each \<open>PodWatch\<close>
  that is not listed, and each of those channels then holds that value.
\<close>

lemma updatePods_in_order:
  assumes "supervised_in_order (current, w)"
  shows "\<exists>newCurrent w'.
      updatePods w client current reality node lg = Some (newCurrent, w') \<and>
      supervised_in_order (newCurrent, w') \<and>
      sent w' = sent w @ map (\<lambda>pod. (shutdownCh pod, True))
        (filter (\<lambda>pod. \<not> inReality reality pod) current) \<and>
      (\<forall>pod \<in> set current. \<not> inReality reality pod \<longrightarrow> buffer w' (shutdownCh pod) = [True]) \<and>
      logged w' = logged w"
proof -
  let ?kept = "filter (inReality reality) current"
  let ?gone = "{pod \<in> set current. \<not> inReality reality pod}"
  from assms have d: "distinct (map shutdownCh current)"
    and old: "\<forall>pod \<in> set current. shutdownCh pod < nextCh w \<and> buffer w (shutdownCh pod) = [] \<and>
       (\<exists>sc. (pod, sc, shutdownCh pod) \<in> set (spawned w))"
    by (simp_all add: supervised_in_order_def)
  from d have inj: "inj_on shutdownCh (set current)"
    by (simp add: distinct_map)
  from old have "\<forall>pod \<in> set current. buffer w (shutdownCh pod) = []" by blast
  from killRemoved_returns [OF d this, of reality "[]"] obtain w1 where w1:
    "killRemoved reality current ([], w) = Some (?kept, w1)"
    "sent w1 = sent w @ map (\<lambda>pod. (shutdownCh pod, True))
        (filter (\<lambda>pod. \<not> inReality reality pod) current)"
    "\<forall>c. buffer w1 c = (if c \<in> shutdownCh ` ?gone then [True] else buffer w c)"
    "nextCh w1 = nextCh w" "spawned w1 = spawned w" "logged w1 = logged w"
    by auto
  have kept_not_gone: "shutdownCh pod \<notin> shutdownCh ` ?gone" if "pod \<in> set ?kept" for pod
  proof
    assume "shutdownCh pod \<in> shutdownCh ` ?gone"
    then obtain q where q: "q \<in> set current" "\<not> inReality reality q"
      "shutdownCh pod = shutdownCh q" by auto
    from that have p: "pod \<in> set current" "inReality reality pod" by simp_all
    from inj q(3) p(1) q(1) have "pod = q" by (rule inj_onD)
    with p(2) q(2) show False by simp
  qed
  have kept_buf: "\<forall>pod \<in> set ?kept. buffer w1 (shutdownCh pod) = buffer w (shutdownCh pod)"
    using kept_not_gone w1(3) by simp
  have "supervised_in_order (?kept, w1)"
    using d old kept_buf w1(4,5)
    by (auto simp: supervised_in_order_def distinct_map_filter)
  then have ord: "supervised_in_order (startMissing client node lg reality (?kept, w1))"
    by (rule startMissing_in_order)
  obtain newCurrent w' where s:
    "startMissing client node lg reality (?kept, w1) = (newCurrent, w')"
    by (cases "startMissing client node lg reality (?kept, w1)")
  have run: "updatePods w client current reality node lg = Some (newCurrent, w')"
    using w1(1) s by (simp add: updatePods_def)
  have snt: "sent w' = sent w1"
    using startMissing_sent [of client node lg reality ?kept w1] s by simp
  have buf: "buffer w' (shutdownCh pod) = [True]"
    if "pod \<in> set current" "\<not> inReality reality pod" for pod
  proof -
    from that old w1(4) have "shutdownCh pod < nextCh w1" by simp
    from startMissing_buffer [OF this, of client node lg reality ?kept] s
    have "buffer w' (shutdownCh pod) = buffer w1 (shutdownCh pod)" by simp
    also from that w1(3) have "\<dots> = [True]" by auto
    finally show ?thesis .
  qed
  have lg: "logged w' = logged w"
  proof -
    have "logged (snd (startMissing client node lg reality (acc, v))) = logged v" for acc v
    proof (induction reality arbitrary: acc v)
      case Nil
      show ?case by simp
    next
      case (Cons man rest)
      show ?case
      proof (cases "missing acc man \<and> StatusPort (mr_Manifest man) \<noteq> 0")
        case True
        then obtain newPod and sc :: StatusCheck and v' where
          "startMissing client node lg (man # rest) (acc, v) =
             startMissing client node lg rest (acc @ [newPod], v')" "logged v' = logged v"
          using startMissing_Cons_new [of acc man client node lg rest v] by blast
        with Cons.IH [of "acc @ [newPod]" v'] show ?thesis by simp
      next
        case False
        then have "startMissing client node lg (man # rest) (acc, v) =
            startMissing client node lg rest (acc, v)"
          by (rule startMissing_Cons_old)
        with Cons.IH [of acc v] show ?thesis by simp
      qed
    qed
    from this [of ?kept w1] s w1(6) show ?thesis by simp
  qed
  from run ord s snt w1(2) buf lg show ?thesis by auto
qed

lemma supervised_in_order_logged:
  "supervised_in_order (pods, w\<lparr>logged := l\<rparr>) = supervised_in_order (pods, w)"
  by (simp add: supervised_in_order_def)

lemma updateHealthMonitors_in_order:
  assumes "supervised_in_order (watchedPods, w)"
  shows "\<exists>pods w'. updateHealthMonitors e w client watchedPods node lg = Some (pods, w') \<and>
           supervised_in_order (pods, w')"
proof -
  obtain reality err where l: "ListPods e (RealityPath node) = (reality, err)"
    by (cases "ListPods e (RealityPath node)")
  let ?w1 = "case err of None \<Rightarrow> w
    | Some err \<Rightarrow> w\<lparr>logged := logged w @ [(''failed to get pods from reality store'', err)]\<rparr>"
  from assms have "supervised_in_order (watchedPods, ?w1)"
    by (simp add: supervised_in_order_logged split: option.splits)
  from updatePods_in_order [OF this, of client reality node lg] l show ?thesis
    by (auto simp: updateHealthMonitors_def)
qed

lemma updateHealthMonitors_distinct:
  assumes "distinct (map pod_id watchedPods)"
    and "updateHealthMonitors e w client watchedPods node lg = Some (pods, w')"
  shows "distinct (map pod_id pods)"
  using assms
  by (auto simp: updateHealthMonitors_def Let_def split: prod.splits
      intro: updatePods_distinct)

subsection \<open>The sets the supervisor holds\<close>

lemma MonitorPodHealth_loop_in_order:
  "supervised_in_order pw \<Longrightarrow>
   \<exists>pods w'. MonitorPodHealth_loop client node lg pw evs = Some (pods, w') \<and>
     supervised_in_order (pods, w')"
proof (induction evs arbitrary: pw)
  case Nil
  then show ?case by (cases pw) simp
next
  case (Cons ev evs)
  obtain pods w where pw: "pw = (pods, w)" by (cases pw)
  show ?case
  proof (cases ev)
    case (PollTimer e)
    from Cons.prems pw updateHealthMonitors_in_order [of pods w e client node lg]
    obtain pods1 w1 where t: "updateHealthMonitors e w client pods node lg = Some (pods1, w1)"
      "supervised_in_order (pods1, w1)" by blast
    from Cons.IH [OF t(2)] t(1) pw PollTimer show ?thesis by simp
  next
    case ShutdownCh
    with Cons.prems pw show ?thesis by simp
  qed
qed

text \<open>
  The supervisor, started in any world, is never stopped at a send, and the set it holds
  is in order after every tick.
\<close>

lemma supervisor_in_order:
  "\<exists>pods w'. MonitorPodHealth client node lg w e0 evs = Some (pods, w') \<and>
     supervised_in_order (pods, w')"
proof -
  have "supervised_in_order ([], w)"
    by (simp add: supervised_in_order_def)
  from updateHealthMonitors_in_order [OF this, of e0 client node lg]
  obtain pods1 w1 where t: "updateHealthMonitors e0 w client [] node lg = Some (pods1, w1)"
    "supervised_in_order (pods1, w1)" by blast
  from MonitorPodHealth_loop_in_order [OF t(2), of client node lg evs] t(1)
  show ?thesis by (simp add: MonitorPodHealth_def)
qed

lemma MonitorPodHealth_loop_distinct:
  "distinct (map pod_id (fst pw)) \<Longrightarrow>
   MonitorPodHealth_loop client node lg pw evs = Some (pods, w') \<Longrightarrow>
   distinct (map pod_id pods)"
proof (induction evs arbitrary: pw)
  case Nil
  then show ?case by (cases pw) simp
next
  case (Cons ev evs)
  obtain pods0 w where pw: "pw = (pods0, w)" by (cases pw)
  show ?case
  proof (cases ev)
    case (PollTimer e)
    with Cons.prems(2) pw obtain pods1 w1 where
      t: "updateHealthMonitors e w client pods0 node lg = Some (pods1, w1)"
      and r: "MonitorPodHealth_loop client node lg (pods1, w1) evs = Some (pods, w')"
      by (auto split: option.splits)
    from Cons.prems(1) pw have "distinct (map pod_id pods0)" by simp
    from updateHealthMonitors_distinct [OF this t]
    have "distinct (map pod_id (fst (pods1, w1)))" by simp
    from Cons.IH [OF this r] show ?thesis .
  next
    case ShutdownCh
    with Cons.prems pw show ?thesis by simp
  qed
qed

text \<open>No set the supervisor holds has two \<open>PodWatch\<close>es of one manifest id.\<close>

lemma supervised_ids_distinct:
  assumes "MonitorPodHealth client node lg w e0 evs = Some (pods, w')"
  shows "distinct (map pod_id pods)"
proof -
  from assms obtain pods1 w1 where
    t: "updateHealthMonitors e0 w client [] node lg = Some (pods1, w1)"
    and r: "MonitorPodHealth_loop client node lg (pods1, w1) evs = Some (pods, w')"
    by (auto simp: MonitorPodHealth_def split: option.splits)
  have "distinct (map pod_id [])" by simp
  from updateHealthMonitors_distinct [OF this t]
  have "distinct (map pod_id (fst (pods1, w1)))" by simp
  from MonitorPodHealth_loop_distinct [OF this r] show ?thesis .
qed

lemma killRemoved_Some_spawned:
  "killRemoved reality current (acc, w) = Some (acc', w1) \<Longrightarrow> spawned w1 = spawned w"
proof (induction current arbitrary: acc w)
  case Nil
  then show ?case by simp
next
  case (Cons pod rest)
  show ?case
  proof (cases "inReality reality pod")
    case True
    with Cons.prems have "killRemoved reality rest (acc @ [pod], w) = Some (acc', w1)"
      by simp
    from Cons.IH [OF this] show ?thesis .
  next
    case False
    with Cons.prems obtain v where v: "chan_send w (shutdownCh pod) True = Some v"
      and "killRemoved reality rest (acc, v) = Some (acc', w1)"
      by (auto split: option.splits)
    from Cons.IH [OF this(2)] v show ?thesis
      by (auto simp: chan_send_def split: if_splits)
  qed
qed

text \<open>
  Each monitor that a tick launches is launched on the channel of its \<open>PodWatch\<close>, with
  the manifest id of that \<open>PodWatch\<close> as its \<open>ID\<close> and the node as its \<open>Node\<close>.
\<close>

lemma updateHealthMonitors_launched:
  assumes "updateHealthMonitors e w client watchedPods node lg = Some (pods, w')"
  shows "\<forall>(pod, sc, ch) \<in> set (launched_between w w').
           ch = shutdownCh pod \<and> ID sc = pod_id pod \<and> Node sc = node"
proof -
  obtain reality err where l: "ListPods e (RealityPath node) = (reality, err)"
    by (cases "ListPods e (RealityPath node)")
  let ?w1 = "case err of None \<Rightarrow> w
    | Some err \<Rightarrow> w\<lparr>logged := logged w @ [(''failed to get pods from reality store'', err)]\<rparr>"
  have sp: "spawned ?w1 = spawned w" by (simp split: option.splits)
  from assms l have "updatePods ?w1 client watchedPods reality node lg = Some (pods, w')"
    by (simp add: updateHealthMonitors_def)
  then obtain acc w2 where k: "killRemoved reality watchedPods ([], ?w1) = Some (acc, w2)"
    and s: "startMissing client node lg reality (acc, w2) = (pods, w')"
    by (auto simp: updatePods_def split: option.splits)
  from killRemoved_Some_spawned [OF k] sp have "spawned w2 = spawned w" by simp
  with startMissing_launched [of client node lg reality acc w2] s
  obtain new where "spawned w' = spawned w @ new"
    "\<forall>(pod, sc, ch) \<in> set new. ch = shutdownCh pod \<and> ID sc = pod_id pod \<and> Node sc = node"
    by auto
  then show ?thesis by (simp add: launched_between_def)
qed

section \<open>The monitor\<close>

subsection \<open>The loop of a monitor\<close>








lemma MonitorHealth_select_statusChecker:
  "statusChecker (snd (MonitorHealth_select ch (w, m) ev)) = statusChecker m"
  by (cases ev) (simp_all split: prod.splits option.splits)

lemma MonitorHealth_loop_statusChecker:
  "statusChecker (snd (MonitorHealth_loop ch (w, m) evs)) = statusChecker m"
proof (induction evs arbitrary: w m)
  case Nil
  show ?case by simp
next
  case (Cons ev evs)
  obtain w' m' where step: "MonitorHealth_select ch (w, m) ev = (w', m')"
    by (cases "MonitorHealth_select ch (w, m) ev")
  with MonitorHealth_select_statusChecker [of ch w m ev]
  have "statusChecker m' = statusChecker m" by simp
  with Cons.IH [of w' m'] step show ?case by simp
qed

text \<open>The variable \<open>statusChecker\<close> of a monitor never changes.\<close>

lemma MonitorHealth_statusChecker:
  "statusChecker (snd (MonitorHealth sc ch w evs)) = sc"
  by (simp add: MonitorHealth_def MonitorHealth_loop_statusChecker)

subsection \<open>The records handed to the KV store\<close>

lemma writeToConsul_record:
  "snd (writeToConsul e kv res) =
     kv @ [\<lparr>kp_Service = res_Service res, kp_Node = res_Node res, kp_Id = res_ID res,
             kp_Status = res_Status res, kp_Output = res_Output res\<rparr>]"
  by (simp add: writeToConsul_def store_PutHealth_def resToKPRes_def)

lemma checkHealth_records:
  assumes "checkHealth e kv sc = (sc', kv', ws)"
    and "\<forall>r \<in> set kv. kp_Service r = ID sc \<and> kp_Id r = ID sc \<and> kp_Node r = Node sc"
  shows "\<forall>r \<in> set kv'. kp_Service r = ID sc \<and> kp_Id r = ID sc \<and> kp_Node r = Node sc"
  using assms
  by (auto simp: checkHealth_def Let_def writeToConsul_def store_PutHealth_def resToKPRes_def
      split: prod.splits option.splits if_splits)

lemma MonitorHealth_select_records:
  assumes "\<forall>r \<in> set (puts m). kp_Service r = ID (statusChecker m) \<and>
             kp_Id r = ID (statusChecker m) \<and> kp_Node r = Node (statusChecker m)"
  shows "\<forall>r \<in> set (puts (snd (MonitorHealth_select ch (w, m) ev))).
           kp_Service r = ID (statusChecker m) \<and>
           kp_Id r = ID (statusChecker m) \<and> kp_Node r = Node (statusChecker m)"
proof (cases ev)
  case (Tick e)
  obtain sc' kv' ws where c: "checkHealth e (puts m) (statusChecker m) = (sc', kv', ws)"
    by (cases "checkHealth e (puts m) (statusChecker m)") auto
  from checkHealth_records [OF c assms] Tick c show ?thesis by simp
next
  case Receive
  with assms show ?thesis by (simp split: option.splits)
qed

lemma MonitorHealth_loop_records:
  assumes "\<forall>r \<in> set (puts m). kp_Service r = ID (statusChecker m) \<and>
             kp_Id r = ID (statusChecker m) \<and> kp_Node r = Node (statusChecker m)"
  shows "\<forall>r \<in> set (puts (snd (MonitorHealth_loop ch (w, m) evs))).
           kp_Service r = ID (statusChecker m) \<and>
           kp_Id r = ID (statusChecker m) \<and> kp_Node r = Node (statusChecker m)"
  using assms
proof (induction evs arbitrary: w m)
  case Nil
  then show ?case by simp
next
  case (Cons ev evs)
  show ?case
  proof (cases "returned m")
    case True
    with Cons.prems show ?thesis by simp
  next
    case False
    obtain w' m' where step: "MonitorHealth_select ch (w, m) ev = (w', m')"
      by (cases "MonitorHealth_select ch (w, m) ev")
    have same: "statusChecker m' = statusChecker m"
      using MonitorHealth_select_statusChecker [of ch w m ev] step by simp
    from MonitorHealth_select_records [OF Cons.prems, of ch w ev] step
    have "\<forall>r \<in> set (puts m'). kp_Service r = ID (statusChecker m') \<and>
            kp_Id r = ID (statusChecker m') \<and> kp_Node r = Node (statusChecker m')"
      by (simp add: same)
    from Cons.IH [OF this, of w'] False step show ?thesis
      by (simp only: same MonitorHealth_loop.simps if_False)
  qed
qed

lemma MonitorHealth_records:
  "\<forall>r \<in> set (puts (snd (MonitorHealth sc ch w evs))).
     kp_Service r = ID sc \<and> kp_Id r = ID sc \<and> kp_Node r = Node sc"
  using MonitorHealth_loop_records
    [of "\<lparr>statusChecker = sc, puts = [], warnings = [], returned = False\<rparr>" ch w evs]
  by (simp add: MonitorHealth_def)

subsection \<open>The threshold of \<open>updateNeeded\<close>\<close>

lemma threshold_TTL: "wrap64 ((TTL sdiv 4) * Second) = - 3446744073709551616"
  by (simp add: wrap64_def TTL_def Second_def signed_divide_int_def)

lemma Since_nonneg: "t \<le> now \<Longrightarrow> 0 \<le> Since now t"
  by (simp add: Since_def Sub_def Let_def minDuration_def maxDuration_def)

lemma updateNeeded_TTL_always:
  "lastCheck sc \<le> now \<Longrightarrow> updateNeeded sc res TTL now"
  using Since_nonneg [of "lastCheck sc" now]
  by (simp add: updateNeeded_def threshold_TTL)

lemma checkHealth_publishes:
  assumes "Check e sc = (resp, err)"
    and "resultFromCheck resp err = (health, None)"
    and "updateNeeded sc (health\<lparr>res_ID := ID sc, res_Node := Node sc, res_Service := ID sc\<rparr>)
           TTL (Now e)"
  shows "fst (snd (checkHealth e kv sc)) =
           kv @ [resToKPRes (health\<lparr>res_ID := ID sc, res_Node := Node sc, res_Service := ID sc\<rparr>)]"
  using assms
  by (simp add: checkHealth_def writeToConsul_def store_PutHealth_def Let_def split: prod.splits)

section \<open>Properties of the health monitor\<close>

text \<open>
  C1. The claim: when listing the reality set fails, the supervised set after the tick is
  the supervised set before it, and no shutdown channel is signalled. The code logs the
  error and goes on to \<open>updatePods\<close> with the listing that came back with the error.
  Evaluated here: the monitor of \<open>web\<close> runs, the KV store refuses the connection and
  returns no listing; the tick sends \<open>true\<close> on the channel of \<open>web\<close> and returns the
  empty supervised set.
\<close>

theorem listing_error_shuts_monitors_down:
  "updateHealthMonitors (kv_down_env 7) world_web 0 [web_pod] ''node1'' 0 =
     Some ([],
      world_web
        \<lparr>buffer := (buffer world_web)(shutdownCh web_pod := [True]),
         sent := [(shutdownCh web_pod, True)],
         logged := [(''failed to get pods from reality store'', errorString ''connection refused'')]\<rparr>)"
  by (simp add: updateHealthMonitors_def updatePods_def chan_send_def kv_down_env_def
      healthy_env_def world_web_def web_pod_def)

text \<open>
  C2, as amended. For every supervised set in which no two \<open>PodWatch\<close>es have the same
  manifest id, and every listed reality set, the set that \<open>updatePods\<close> returns holds
  exactly one \<open>PodWatch\<close> for the id of each listed manifest whose status port is not
  \<open>0\<close>, holds no \<open>PodWatch\<close> whose id is not listed, and holds no two \<open>PodWatch\<close>es
  with the same id; and \<open>updatePods\<close> does return a set when the one it is given is in
  order. (Every set the supervisor holds has distinct ids and is in order:
  \<open>supervised_ids_distinct\<close>, \<open>supervisor_in_order\<close>.)
\<close>

theorem updatePods_one_monitor_per_id:
  assumes "distinct (map pod_id current)"
  shows "(supervised_in_order (current, w) \<longrightarrow>
            (\<exists>newCurrent w'. updatePods w client current reality node lg = Some (newCurrent, w'))) \<and>
         (\<forall>newCurrent w'. updatePods w client current reality node lg = Some (newCurrent, w') \<longrightarrow>
            (\<forall>man \<in> set reality. StatusPort (mr_Manifest man) \<noteq> 0 \<longrightarrow>
               length (filter (\<lambda>pod. pod_id pod = man_id man) newCurrent) = 1) \<and>
            (\<forall>pod \<in> set newCurrent. pod_id pod \<in> man_id ` set reality) \<and>
            distinct (map pod_id newCurrent))"
proof (intro conjI allI impI ballI)
  assume "supervised_in_order (current, w)"
  from updatePods_in_order [OF this, of client reality node lg]
  show "\<exists>newCurrent w'. updatePods w client current reality node lg = Some (newCurrent, w')"
    by blast
next
  fix newCurrent w' man
  assume run: "updatePods w client current reality node lg = Some (newCurrent, w')"
    and "man \<in> set reality" "StatusPort (mr_Manifest man) \<noteq> 0"
  then have "man_id man \<in> pod_id ` set newCurrent"
    by (rule updatePods_covers)
  with updatePods_distinct [OF assms run]
  show "length (filter (\<lambda>pod. pod_id pod = man_id man) newCurrent) = 1"
    by (rule distinct_filter_one)
next
  fix newCurrent w' pod
  assume "updatePods w client current reality node lg = Some (newCurrent, w')"
    and "pod \<in> set newCurrent"
  with updatePods_ids [of w client current reality node lg newCurrent w']
  show "pod_id pod \<in> man_id ` set reality" by blast
next
  fix newCurrent w'
  assume "updatePods w client current reality node lg = Some (newCurrent, w')"
  with assms show "distinct (map pod_id newCurrent)"
    by (rule updatePods_distinct)
qed

text \<open>
  The theorem at work: \<open>web\<close> is supervised, and the listing holds \<open>web\<close> and a pod
  \<open>api\<close>; the result has one \<open>PodWatch\<close> for each.
\<close>

theorem updatePods_one_monitor_per_id_witness:
  "distinct (map pod_id [web_pod]) \<and> supervised_in_order ([web_pod], world_web) \<and>
   (\<exists>newCurrent w'.
      updatePods world_web 0 [web_pod] [\<lparr>mr_Manifest = web\<rparr>, \<lparr>mr_Manifest = api\<rparr>] ''node1'' 0 =
        Some (newCurrent, w') \<and>
      length (filter (\<lambda>pod. pod_id pod = ''web'') newCurrent) = 1 \<and>
      length (filter (\<lambda>pod. pod_id pod = ''api'') newCurrent) = 1 \<and>
      (\<forall>pod \<in> set newCurrent. pod_id pod = ''web'' \<or> pod_id pod = ''api'') \<and>
      distinct (map pod_id newCurrent))"
proof -
  have d: "distinct (map pod_id [web_pod])" by simp
  have o: "supervised_in_order ([web_pod], world_web)"
    by (simp add: supervised_in_order_def world_web_def web_pod_def)
  note t = updatePods_one_monitor_per_id
    [OF d, of world_web 0 "[\<lparr>mr_Manifest = web\<rparr>, \<lparr>mr_Manifest = api\<rparr>]" "''node1''" 0]
  from t o obtain newCurrent w' where run:
    "updatePods world_web 0 [web_pod] [\<lparr>mr_Manifest = web\<rparr>, \<lparr>mr_Manifest = api\<rparr>] ''node1'' 0 =
       Some (newCurrent, w')" by blast
  with t have
    "(\<forall>man \<in> set [\<lparr>mr_Manifest = web\<rparr>, \<lparr>mr_Manifest = api\<rparr>].
        StatusPort (mr_Manifest man) \<noteq> 0 \<longrightarrow>
        length (filter (\<lambda>pod. pod_id pod = man_id man) newCurrent) = 1) \<and>
     (\<forall>pod \<in> set newCurrent.
        pod_id pod \<in> man_id ` set [\<lparr>mr_Manifest = web\<rparr>, \<lparr>mr_Manifest = api\<rparr>]) \<and>
     distinct (map pod_id newCurrent)" by blast
  then have "length (filter (\<lambda>pod. pod_id pod = ''web'') newCurrent) = 1 \<and>
      length (filter (\<lambda>pod. pod_id pod = ''api'') newCurrent) = 1 \<and>
      (\<forall>pod \<in> set newCurrent. pod_id pod = ''web'' \<or> pod_id pod = ''api'') \<and>
      distinct (map pod_id newCurrent)"
    by (simp add: web_def api_def)
  with d o run show ?thesis by blast
qed

text \<open>
  The claim as stated, for every supervised set, fails on a set that already holds two
  \<open>PodWatch\<close>es of one id: both are in the listing, so both are kept.
\<close>

theorem updatePods_duplicates_counterexample:
  "updatePods world_empty 0 [web_pod, web_pod_again] [\<lparr>mr_Manifest = web\<rparr>] ''node1'' 0 =
     Some ([web_pod, web_pod_again], world_empty) \<and>
   pod_id web_pod = ''web'' \<and> pod_id web_pod_again = ''web'' \<and>
   StatusPort web = 8080"
  by (simp add: updatePods_def startMissing.simps(2) web_pod_def web_pod_again_def web_def)

text \<open>
  C3. The claim: a health record is published if and only if the status differs from
  \<open>lastStatus\<close> or more than \<open>TTL/4\<close> = 15 seconds have passed since \<open>lastCheck\<close>.
  Evaluated here: the last status was passing, the last check one second ago, the probe
  passes again. \<open>updateNeeded\<close> answers \<open>True\<close> and \<open>checkHealth\<close> publishes, because
  the threshold \<open>time.Duration(ttl/4)*time.Second\<close> is fifteen seconds times
  \<open>10^9\<close>, which wraps around to a negative \<open>int64\<close>.
\<close>

theorem updateNeeded_one_second_after:
  "updateNeeded (web_check\<lparr>lastCheck := 100 * Second, lastStatus := Passing\<rparr>)
     (Result_zero\<lparr>res_Status := Passing\<rparr>) TTL (101 * Second) = True \<and>
   wrap64 ((TTL sdiv 4) * Second) = - 3446744073709551616 \<and>
   fst (snd (checkHealth (healthy_env (101 * Second)) []
     (web_check\<lparr>lastCheck := 100 * Second, lastStatus := Passing\<rparr>))) =
     [\<lparr>kp_Service = ''web'', kp_Node = ''node1'', kp_Id = ''web'', kp_Status = ''passing'',
       kp_Output = ''ok''\<rparr>]"
proof (intro conjI)
  have "lastCheck (web_check\<lparr>lastCheck := 100 * Second, lastStatus := Passing\<rparr>) \<le> 101 * Second"
    by (simp add: Second_def)
  then show "updateNeeded (web_check\<lparr>lastCheck := 100 * Second, lastStatus := Passing\<rparr>)
      (Result_zero\<lparr>res_Status := Passing\<rparr>) TTL (101 * Second) = True"
    by (simp only: updateNeeded_TTL_always)
next
  show "wrap64 ((TTL sdiv 4) * Second) = - 3446744073709551616"
    by (rule threshold_TTL)
next
  let ?sc = "web_check\<lparr>lastCheck := 100 * Second, lastStatus := Passing\<rparr>"
  let ?health = "Result_zero\<lparr>res_Output := ''ok'', res_Status := Passing\<rparr>"
  let ?named = "?health\<lparr>res_ID := ID ?sc, res_Node := Node ?sc, res_Service := ID ?sc\<rparr>"
  have "lastCheck ?sc \<le> Now (healthy_env (101 * Second))"
    by (simp add: Second_def healthy_env_def)
  then have needed: "updateNeeded ?sc ?named TTL (Now (healthy_env (101 * Second)))"
    by (rule updateNeeded_TTL_always)
  have probe: "resultFromCheck (Some ok_response) None = (?health, None)"
    by (simp add: ok_response_def getBody_def)
  have check: "Check (healthy_env (101 * Second)) ?sc = (Some ok_response, None)"
    by (simp add: Check_def healthy_env_def web_check_def)
  have "fst (snd (checkHealth (healthy_env (101 * Second)) [] ?sc)) = [] @ [resToKPRes ?named]"
    using check probe needed by (rule checkHealth_publishes)
  then show "fst (snd (checkHealth (healthy_env (101 * Second)) [] ?sc)) =
      [\<lparr>kp_Service = ''web'', kp_Node = ''node1'', kp_Id = ''web'', kp_Status = ''passing'',
        kp_Output = ''ok''\<rparr>]"
    by (simp add: resToKPRes_def Result_zero_def Passing_def web_check_def)
qed

text \<open>
  C4. The claim: after a successful publish the monitor's \<open>lastCheck\<close> is the time of
  that publish and its \<open>lastStatus\<close> the published status; a failed publish leaves
  \<open>lastCheck\<close> as it was. Evaluated here: the first tick of the monitor of \<open>web\<close>
  publishes \<open>passing\<close> at second 5. The copy of the \<open>StatusCheck\<close> inside
  \<open>checkHealth\<close> records both, but the monitor's own \<open>statusChecker\<close> is as before:
  \<open>lastCheck\<close> is the zero time and \<open>lastStatus\<close> the empty string, and the next tick
  publishes the unchanged status again. And when the put fails, the copy inside
  \<open>checkHealth\<close> takes the time that \<open>PutHealth\<close> returned with the error.
\<close>

theorem publish_does_not_reach_monitor_state:
  "puts (snd (MonitorHealth web_check 0 world_web [Tick (healthy_env (5 * Second))])) =
     [\<lparr>kp_Service = ''web'', kp_Node = ''node1'', kp_Id = ''web'', kp_Status = ''passing'',
       kp_Output = ''ok''\<rparr>] \<and>
   fst (checkHealth (healthy_env (5 * Second)) [] web_check) =
     web_check\<lparr>lastCheck := 5 * Second, lastStatus := Passing\<rparr> \<and>
   statusChecker (snd (MonitorHealth web_check 0 world_web [Tick (healthy_env (5 * Second))])) =
     web_check \<and>
   lastCheck web_check = 0 \<and> lastStatus web_check = [] \<and>
   length (puts (snd (MonitorHealth web_check 0 world_web
     [Tick (healthy_env (5 * Second)), Tick (healthy_env (6 * Second))]))) = 2 \<and>
   fst (checkHealth (kv_down_env (5 * Second)) []
     (web_check\<lparr>lastCheck := 3 * Second, lastStatus := Critical\<rparr>)) =
     web_check\<lparr>lastCheck := 0, lastStatus := Passing\<rparr>"
  by (simp add: MonitorHealth_def updateNeeded_def Passing_def Critical_def Result_zero_def
      checkHealth_def Check_def healthy_env_def kv_down_env_def ok_response_def getBody_def
      writeToConsul_def store_PutHealth_def resToKPRes_def web_check_def)



text \<open>
  C6. \<open>resultFromCheck\<close> maps a probe outcome so: with an error, \<open>Critical\<close> and the
  text of the error; with neither error nor response, \<open>Critical\<close> and no output; with
  a response whose code is in \<open>[200, 300)\<close> and whose body reads, \<open>Passing\<close> and the
  body; with any other response whose body reads, \<open>Critical\<close> and the body; and when
  reading the body fails, a result with the status its code gives and empty output (the
  read error is returned next to it).
\<close>

theorem resultFromCheck_mapping:
  "(\<forall>err. resultFromCheck resp (Some err) =
      (Result_zero\<lparr>res_Status := Critical, res_Output := Error err\<rparr>, None)) \<and>
   resultFromCheck None None = (Result_zero\<lparr>res_Status := Critical, res_Output := []\<rparr>, None) \<and>
   (\<forall>r body. Body r = (body, None) \<and> 200 \<le> StatusCode r \<and> StatusCode r < 300 \<longrightarrow>
      resultFromCheck (Some r) None =
        (Result_zero\<lparr>res_Status := Passing, res_Output := body\<rparr>, None)) \<and>
   (\<forall>r body. Body r = (body, None) \<and> \<not> (200 \<le> StatusCode r \<and> StatusCode r < 300) \<longrightarrow>
      resultFromCheck (Some r) None =
        (Result_zero\<lparr>res_Status := Critical, res_Output := body\<rparr>, None)) \<and>
   (\<forall>r body err. Body r = (body, Some err) \<longrightarrow>
      resultFromCheck (Some r) None =
        (Result_zero
           \<lparr>res_Status := (if 200 \<le> StatusCode r \<and> StatusCode r < 300 then Passing else Critical),
            res_Output := []\<rparr>,
         Some err))"
  by (auto simp: getBody_def Result_zero_def)

text \<open>
  The theorem at work on a refused connection, \<open>200 ok\<close>, \<open>503 down\<close> and a body that
  breaks off.
\<close>

theorem resultFromCheck_mapping_witness:
  "resultFromCheck None (Some (errorString ''connection refused'')) =
     (\<lparr>res_ID = [], res_Node = [], res_Service = [], res_Status = ''critical'',
       res_Output = ''connection refused''\<rparr>, None) \<and>
   resultFromCheck (Some ok_response) None =
     (\<lparr>res_ID = [], res_Node = [], res_Service = [], res_Status = ''passing'',
       res_Output = ''ok''\<rparr>, None) \<and>
   resultFromCheck (Some unavailable_response) None =
     (\<lparr>res_ID = [], res_Node = [], res_Service = [], res_Status = ''critical'',
       res_Output = ''down''\<rparr>, None) \<and>
   resultFromCheck (Some truncated_response) None =
     (\<lparr>res_ID = [], res_Node = [], res_Service = [], res_Status = ''passing'',
       res_Output = []\<rparr>, Some (errorString ''unexpected EOF''))"
proof -
  note m = resultFromCheck_mapping [of None]
  have 1: "resultFromCheck None (Some (errorString ''connection refused'')) =
      (Result_zero\<lparr>res_Status := Critical, res_Output := ''connection refused''\<rparr>, None)"
    using m by simp
  have b2: "Body ok_response = (''ok'', None) \<and> 200 \<le> StatusCode ok_response \<and>
      StatusCode ok_response < 300"
    by (simp add: ok_response_def)
  have 2: "resultFromCheck (Some ok_response) None =
      (Result_zero\<lparr>res_Status := Passing, res_Output := ''ok''\<rparr>, None)"
    using m b2 by blast
  have b3: "Body unavailable_response = (''down'', None) \<and>
      \<not> (200 \<le> StatusCode unavailable_response \<and> StatusCode unavailable_response < 300)"
    by (simp add: unavailable_response_def)
  have 3: "resultFromCheck (Some unavailable_response) None =
      (Result_zero\<lparr>res_Status := Critical, res_Output := ''down''\<rparr>, None)"
    using m b3 by blast
  have b4: "Body truncated_response = (''o'', Some (errorString ''unexpected EOF''))"
    by (simp add: truncated_response_def)
  have "resultFromCheck (Some truncated_response) None =
      (Result_zero
         \<lparr>res_Status := (if 200 \<le> StatusCode truncated_response \<and>
              StatusCode truncated_response < 300 then Passing else Critical),
          res_Output := []\<rparr>,
       Some (errorString ''unexpected EOF''))"
    using m b4 by blast
  then have 4: "resultFromCheck (Some truncated_response) None =
      (Result_zero\<lparr>res_Status := Passing, res_Output := []\<rparr>,
       Some (errorString ''unexpected EOF''))"
    by (simp add: truncated_response_def)
  show ?thesis
    unfolding 1 2 3 4 by (simp add: Result_zero_def Passing_def Critical_def)
qed

text \<open>
  C10. Every health record that a monitor hands to the KV store has its \<open>Service\<close> and
  its \<open>Id\<close> equal to the \<open>ID\<close> of the monitor's \<open>StatusCheck\<close>, and its \<open>Node\<close>
  equal to the \<open>Node\<close> of that \<open>StatusCheck\<close>; and in every monitor that a tick of the
  supervisor launches, that \<open>ID\<close> is the manifest id of the monitor's \<open>PodWatch\<close> and
  that \<open>Node\<close> is the supervisor's node.
\<close>

theorem health_records_name_their_monitor:
  "(\<forall>r \<in> set (puts (snd (MonitorHealth sc ch wm evs))).
      kp_Service r = kp_Id r \<and> kp_Id r = ID sc \<and> kp_Node r = Node sc) \<and>
   (\<forall>pods w'. updateHealthMonitors e w client watchedPods node lg = Some (pods, w') \<longrightarrow>
      (\<forall>(pod, sc', ch') \<in> set (launched_between w w').
         ID sc' = pod_id pod \<and> Node sc' = node \<and>
         (\<forall>wm' evs'. \<forall>r \<in> set (puts (snd (MonitorHealth sc' ch' wm' evs'))).
            kp_Service r = pod_id pod \<and> kp_Id r = pod_id pod \<and> kp_Node r = node)))"
proof (intro conjI allI impI)
  show "\<forall>r \<in> set (puts (snd (MonitorHealth sc ch wm evs))).
      kp_Service r = kp_Id r \<and> kp_Id r = ID sc \<and> kp_Node r = Node sc"
    using MonitorHealth_records [of sc ch wm evs] by simp
next
  fix pods w'
  assume "updateHealthMonitors e w client watchedPods node lg = Some (pods, w')"
  from updateHealthMonitors_launched [OF this]
  have "\<forall>(pod, sc', ch') \<in> set (launched_between w w').
      ch' = shutdownCh pod \<and> ID sc' = pod_id pod \<and> Node sc' = node" .
  then show "\<forall>(pod, sc', ch') \<in> set (launched_between w w').
      ID sc' = pod_id pod \<and> Node sc' = node \<and>
      (\<forall>wm' evs'. \<forall>r \<in> set (puts (snd (MonitorHealth sc' ch' wm' evs'))).
         kp_Service r = pod_id pod \<and> kp_Id r = pod_id pod \<and> kp_Node r = node)"
    using MonitorHealth_records by fastforce
qed

text \<open>
  The theorem at work: the first tick of the supervisor on \<open>node1\<close> finds \<open>web\<close>
  listed and launches its monitor, whose first health check hands the KV store one
  record.
\<close>

theorem health_records_name_their_monitor_witness:
  "updateHealthMonitors (healthy_env 0) world_empty 0 [] ''node1'' 0 =
     Some ([web_pod], world_web) \<and>
   launched_between world_empty world_web = [(web_pod, web_check, 0)] \<and>
   puts (snd (MonitorHealth web_check 0 world_web [Tick (healthy_env (5 * Second))])) =
     [\<lparr>kp_Service = ''web'', kp_Node = ''node1'', kp_Id = ''web'', kp_Status = ''passing'',
       kp_Output = ''ok''\<rparr>]"
proof -
  let ?m = "MonitorHealth web_check 0 world_web [Tick (healthy_env (5 * Second))]"
  have uri: "Sprintf_s_d ''node1'' 8080 = ''node1:8080''"
    by code_simp
  have t: "updateHealthMonitors (healthy_env 0) world_empty 0 [] ''node1'' 0 =
      Some ([web_pod], world_web)"
    by (simp add: updateHealthMonitors_def updatePods_def startMissing.simps(2) make_chan_def
        Let_def fun_upd_idem healthy_env_def world_empty_def world_web_def web_pod_def
        web_check_def web_def uri)
  have l: "launched_between world_empty world_web = [(web_pod, web_check, 0)]"
    by (simp add: launched_between_def world_empty_def world_web_def)
  note inst = health_records_name_their_monitor
    [of web_check 0 world_web "[Tick (healthy_env (5 * Second))]"
      "healthy_env 0" world_empty 0 "[]" "''node1''" 0]
  from inst t l have names: "ID web_check = pod_id web_pod \<and> Node web_check = ''node1''"
    by auto
  obtain r where r: "puts (snd ?m) = [r]" and st: "kp_Status r = ''passing''"
      and out: "kp_Output r = ''ok''"
    by (simp add: MonitorHealth_def updateNeeded_def Passing_def Result_zero_def
        checkHealth_def Check_def healthy_env_def ok_response_def getBody_def
        writeToConsul_def store_PutHealth_def resToKPRes_def web_check_def)
  from r have "r \<in> set (puts (snd ?m))" by simp
  with inst have "kp_Service r = kp_Id r \<and> kp_Id r = ID web_check \<and> kp_Node r = Node web_check"
    by blast
  with names have "kp_Service r = ''web'' \<and> kp_Id r = ''web'' \<and> kp_Node r = ''node1''"
    by (simp add: web_pod_def web_def)
  then have "r = \<lparr>kp_Service = ''web'', kp_Node = ''node1'', kp_Id = ''web'',
      kp_Status = ''passing'', kp_Output = ''ok''\<rparr>"
    using st out by (cases r) simp
  with r t l show ?thesis by simp
qed

end
